theory Spec2Isabelle
  imports Complex_Main "HOL-Library.Multiset" "HOL-Library.Sublist"
begin

section \<open>RateGenius backend: values, numbers and text\<close>

text \<open>
  The backend is one JavaScript file. Its numbers are modelled as exact rationals with
  one extra value for NaN (\<open>None\<close>): IEEE rounding, the infinities and the sign of zero
  are outside the model. Strings are lists of ASCII characters, so the non-ASCII white
  space that JavaScript also recognises does not occur. The value of a field is
  \<open>undefined\<close> (the field is absent), \<open>null\<close>, a boolean, a number or a text.
\<close>

type_synonym number = "rat option"

datatype jsval =
    JUndefined
  | JNull
  | JBool bool
  | JNumber number
  | JStr string

definition isNaN :: "number \<Rightarrow> bool" where
  "isNaN p \<longleftrightarrow> p = None"

subsection \<open>Character classes of the regular expressions\<close>

text \<open>\<open>\d\<close> and \<open>[0-9]\<close>.\<close>

definition isDigit :: "char \<Rightarrow> bool" where
  "isDigit c \<longleftrightarrow> c \<in> set ''0123456789''"

text \<open>\<open>\s\<close> and the white space trimmed by \<open>Number\<close>: tab, line feed, vertical tab,
  form feed, carriage return and space.\<close>

definition isSpace :: "char \<Rightarrow> bool" where
  "isSpace c \<longleftrightarrow> c \<in> set [CHR 0x09, CHR 0x0A, CHR 0x0B, CHR 0x0C, CHR 0x0D, CHR 0x20]"

subsection \<open>\<open>Number(value)\<close>\<close>

definition digit_val :: "char \<Rightarrow> nat" where
  "digit_val c = of_char c - of_char (CHR ''0'')"

definition digits_val :: "string \<Rightarrow> nat" where
  "digits_val ds = foldl (\<lambda>a c. 10 * a + digit_val c) 0 ds"

text \<open>The exponent part of a decimal literal, which must reach the end of the text:
  nothing, or \<open>e\<close>/\<open>E\<close>, an optional sign and at least one digit.\<close>

definition exponent_part :: "string \<Rightarrow> int option" where
  "exponent_part s =
     (case s of
        [] \<Rightarrow> Some 0
      | c # t \<Rightarrow>
          if c = CHR ''e'' \<or> c = CHR ''E'' then
            (let neg = (case t of [] \<Rightarrow> False | d # _ \<Rightarrow> d = CHR ''-'');
                 ds = (case t of [] \<Rightarrow> []
                       | d # r \<Rightarrow> if d = CHR ''-'' \<or> d = CHR ''+'' then r else t)
             in if ds \<noteq> [] \<and> list_all isDigit ds
                then Some (if neg then - int (digits_val ds) else int (digits_val ds))
                else None)
          else None)"

text \<open>An unsigned decimal literal: digits with an optional fraction, or a fraction that
  starts with the point; then the exponent part.\<close>

definition unsigned_decimal :: "string \<Rightarrow> number" where
  "unsigned_decimal s =
     (let ip = takeWhile isDigit s;
          r1 = dropWhile isDigit s;
          fp = (case r1 of [] \<Rightarrow> []
                | c # t \<Rightarrow> if c = CHR ''.'' then takeWhile isDigit t else []);
          r2 = (case r1 of [] \<Rightarrow> []
                | c # t \<Rightarrow> if c = CHR ''.'' then dropWhile isDigit t else r1)
      in if ip = [] \<and> fp = [] then None
         else (case exponent_part r2 of
                 None \<Rightarrow> None
               | Some e \<Rightarrow>
                   Some ((of_nat (digits_val ip) + of_nat (digits_val fp) / 10 ^ length fp)
                         * (if 0 \<le> e then 10 ^ nat e else 1 / 10 ^ nat (- e)))))"

definition trim :: "string \<Rightarrow> string" where
  "trim s = rev (dropWhile isSpace (rev (dropWhile isSpace s)))"

text \<open>A literal with a radix prefix: \<open>0x\<close>, \<open>0b\<close> or \<open>0o\<close> (in either case) and at least
  one digit of the radix. It takes no sign.\<close>

definition radix_digit :: "char \<Rightarrow> nat option" where
  "radix_digit c =
     (if isDigit c then Some (digit_val c)
      else if c \<in> set ''abcdef'' then Some (10 + (of_char c - of_char (CHR ''a'')))
      else if c \<in> set ''ABCDEF'' then Some (10 + (of_char c - of_char (CHR ''A'')))
      else None)"

definition radix_value :: "nat \<Rightarrow> string \<Rightarrow> number" where
  "radix_value base ds =
     (if ds \<noteq> [] \<and> list_all (\<lambda>c. case radix_digit c of None \<Rightarrow> False | Some v \<Rightarrow> v < base) ds
      then Some (of_nat (foldl (\<lambda>a c. base * a + the (radix_digit c)) 0 ds))
      else None)"

definition non_decimal :: "string \<Rightarrow> number" where
  "non_decimal s =
     (case s of
        z # p # ds \<Rightarrow>
          if z \<noteq> CHR ''0'' then None
          else if p = CHR ''x'' \<or> p = CHR ''X'' then radix_value 16 ds
          else if p = CHR ''b'' \<or> p = CHR ''B'' then radix_value 2 ds
          else if p = CHR ''o'' \<or> p = CHR ''O'' then radix_value 8 ds
          else None
      | _ \<Rightarrow> None)"

text \<open>The texts that JavaScript reads as an infinity. The model of numbers has no value
  for them: what is stated about \<open>Number\<close> on texts is stated for the other texts.\<close>

definition infinity_text :: "string \<Rightarrow> bool" where
  "infinity_text s \<longleftrightarrow> trim s \<in> {''Infinity'', ''+Infinity'', ''-Infinity''}"

text \<open>\<open>Number\<close> applied to a string: white space is trimmed, the empty text is 0, a signed
  decimal literal or a literal with a radix prefix is its value, and any other text is NaN.\<close>

definition StringToNumber :: "string \<Rightarrow> number" where
  "StringToNumber s =
     (case trim s of
        [] \<Rightarrow> Some 0
      | c # r \<Rightarrow>
          if c = CHR ''-'' then map_option uminus (unsigned_decimal r)
          else if c = CHR ''+'' then unsigned_decimal r
          else (case unsigned_decimal (c # r) of
                  Some v \<Rightarrow> Some v
                | None \<Rightarrow> non_decimal (c # r)))"

text \<open>\<open>Number(v)\<close>: \<open>undefined\<close> is NaN, \<open>null\<close> is 0, \<open>false\<close> and \<open>true\<close> are 0 and 1.\<close>

fun Number :: "jsval \<Rightarrow> number" where
  "Number JUndefined = None"
| "Number JNull = Some 0"
| "Number (JBool b) = Some (if b then 1 else 0)"
| "Number (JNumber n) = n"
| "Number (JStr s) = StringToNumber s"

text \<open>\<open>Math.round\<close>: the nearest integer, a tie going up.\<close>

definition Math_round :: "rat \<Rightarrow> rat" where
  "Math_round x = of_int \<lfloor>x + 1 / 2\<rfloor>"

section \<open>The aggregator\<close>

subsection \<open>\<open>Array.prototype.sort\<close> with a comparator\<close>

text \<open>
  The sort is stable; with a consistent comparator its result is the one of a stable
  insertion sort, where \<open>x\<close> goes before the first \<open>y\<close> with \<open>cmp x y \<le> 0\<close>.
\<close>

fun insert_by :: "('a \<Rightarrow> 'a \<Rightarrow> rat) \<Rightarrow> 'a \<Rightarrow> 'a list \<Rightarrow> 'a list" where
  "insert_by cmp x [] = [x]"
| "insert_by cmp x (y # ys) =
     (if cmp x y \<le> 0 then x # y # ys else y # insert_by cmp x ys)"

definition sort_by :: "('a \<Rightarrow> 'a \<Rightarrow> rat) \<Rightarrow> 'a list \<Rightarrow> 'a list" where
  "sort_by cmp xs = foldr (insert_by cmp) xs []"

subsection \<open>\<open>median(arr)\<close>\<close>

text \<open>
  \<^verbatim>\<open>
  function median(arr){
    if(!arr.length) return null;
    const s = arr.slice().sort((a,b)=>a-b);
    const m = Math.floor(s.length/2);
    return s.length%2 ? s[m] : (s[m-1]+s[m])/2;
  }
  \<close>
  \<open>None\<close> is the \<open>null\<close> of the empty array. The elements are numbers other than NaN,
  as the only caller passes them.
\<close>

definition median :: "rat list \<Rightarrow> rat option" where
  "median arr =
     (if length arr = 0 then None
      else
        (let s = sort_by (\<lambda>a b. a - b) arr;
             m = length s div 2
         in if length s mod 2 \<noteq> 0 then Some (s ! m)
            else Some ((s ! (m - 1) + s ! m) / 2)))"


subsection \<open>Competitor records\<close>

text \<open>
  The objects that \<open>/api/scan\<close> puts into its \<open>competitors\<close> list and that
  \<open>/api/suggest\<close> reads back. A scan entry has one of two shapes: the full record, or
  the three fields \<open>name\<close>, \<open>address\<close> and \<open>error\<close> of the catch branch.
\<close>

record competitor =
  name :: string
  address :: string
  place_id :: string
  website :: "string option"
  distance :: jsval
  unit :: jsval
  price :: jsval
  source :: string
  availability :: jsval

datatype entry =
    Competitor competitor
  | Failed string string string

text \<open>The property reads \<open>c.price\<close>, \<open>c.name\<close> and \<open>c.error\<close>; a missing property is
  \<open>undefined\<close>.\<close>

fun price_of :: "entry \<Rightarrow> jsval" where
  "price_of (Competitor c) = price c"
| "price_of (Failed n a e) = JUndefined"

fun name_of :: "entry \<Rightarrow> string" where
  "name_of (Competitor c) = name c"
| "name_of (Failed n a e) = n"

fun address_of :: "entry \<Rightarrow> string" where
  "address_of (Competitor c) = address c"
| "address_of (Failed n a e) = a"

fun error_of :: "entry \<Rightarrow> string option" where
  "error_of (Competitor c) = None"
| "error_of (Failed n a e) = Some e"

subsection \<open>\<open>POST /api/suggest\<close>\<close>

text \<open>
  \<^verbatim>\<open>
  const prices = (competitors||[]).map(c => Number(c.price)).filter(p=>!Number.isNaN(p));
  const med = median(prices);
  if(med === null) return res.status(400).json({ error: 'no competitor prices available' });
  const alpha = 0.06; // undercut factor
  const recommended = Math.round((med * (1 - alpha)) * 100) / 100;
  res.json({ recommendedPrice: recommended, rationale: ..., confidence: 0.6 });
  \<close>
  A reply is the JSON body of a successful answer, or a status with an error message.
  The \<open>rationale\<close> text prints numbers and is left out of the body. The entries of
  \<open>competitors\<close> are objects, so nothing in these lines throws and the \<open>catch\<close> of the
  handler (status 500) is not reached.
\<close>

datatype 'a reply = Json 'a | Status nat string

record suggestion =
  recommendedPrice :: rat
  confidence :: rat

definition alpha :: rat where
  "alpha = 6 / 100"

definition prices_of :: "entry list option \<Rightarrow> rat list" where
  "prices_of competitors =
     map the (filter (\<lambda>p. \<not> isNaN p)
       (map (\<lambda>c. Number (price_of c)) (case competitors of None \<Rightarrow> [] | Some cs \<Rightarrow> cs)))"

text \<open>No price of the list is a text that spells an infinity.\<close>

definition no_infinity_text :: "entry list option \<Rightarrow> bool" where
  "no_infinity_text competitors =
     list_all (\<lambda>c. case price_of c of JStr s \<Rightarrow> \<not> infinity_text s | _ \<Rightarrow> True)
       (case competitors of None \<Rightarrow> [] | Some cs \<Rightarrow> cs)"

definition suggest :: "entry list option \<Rightarrow> suggestion reply" where
  "suggest competitors =
     (let prices = prices_of competitors;
          med = median prices
      in case med of
           None \<Rightarrow> Status 400 ''no competitor prices available''
         | Some m \<Rightarrow>
             Json \<lparr> recommendedPrice = Math_round ((m * (1 - alpha)) * 100) / 100,
                    confidence = 6 / 10 \<rparr>)"


section \<open>The cache\<close>

text \<open>
  \<^verbatim>\<open>
  const cache = new Map();
  function setCache(key, value, ttlSec=3600){
    cache.set(key, { value, exp: Date.now() + ttlSec*1000 });
  }
  function getCache(key){
    const v = cache.get(key);
    if(!v) return null;
    if(Date.now() > v.exp){ cache.delete(key); return null; }
    return v.value;
  }
  \<close>
  The store is passed in and returned. \<open>now\<close> is what \<open>Date.now()\<close> answers inside the
  call, in milliseconds. A missing \<open>ttlSec\<close> argument is \<open>None\<close>. The answer \<open>null\<close> of
  \<open>getCache\<close> is \<open>None\<close>.
\<close>

record 'v cache_entry =
  val :: 'v
  expires :: rat

type_synonym 'v cache = "string \<rightharpoonup> 'v cache_entry"

definition setCache :: "'v cache \<Rightarrow> string \<Rightarrow> 'v \<Rightarrow> rat option \<Rightarrow> int \<Rightarrow> 'v cache" where
  "setCache cache key v ttlSec now =
     cache(key \<mapsto> \<lparr> val = v,
                     expires = of_int now + (case ttlSec of None \<Rightarrow> 3600 | Some t \<Rightarrow> t) * 1000 \<rparr>)"

definition getCache :: "'v cache \<Rightarrow> string \<Rightarrow> int \<Rightarrow> 'v option \<times> 'v cache" where
  "getCache cache key now =
     (case cache key of
        None \<Rightarrow> (None, cache)
      | Some v \<Rightarrow>
          if of_int now > expires v then (None, cache(key := None))
          else (Some (val v), cache))"

text \<open>\<open>cache.size\<close>.\<close>

definition cache_size :: "'v cache \<Rightarrow> nat" where
  "cache_size cache = card (dom cache)"

section \<open>The politeness tracker\<close>

text \<open>
  \<^verbatim>\<open>
  const hostLock = new Map();
  async function politeWaitForHost(host){
    const last = hostLock.get(host) || 0;
    const now = Date.now();
    const gap = 2000; // 2 seconds between requests to same host
    if(now - last < gap){
      await new Promise(r=>setTimeout(r, gap - (now - last)));
    }
    hostLock.set(host, Date.now());
  }
  \<close>
  The function runs in one piece when it does not wait, and in two pieces around the
  \<open>await\<close> when it does: other handlers of the server run between the two. The state
  holds the map, the calls that are suspended on their timer (host and the time the
  timer is due), and the log of completed calls (host and the time written to the map).
\<close>

definition gap :: int where
  "gap = 2000"

record throttle =
  hostLock :: "string \<rightharpoonup> int"
  suspended :: "(string \<times> int) list"
  completed :: "(string \<times> int) list"

definition last_request :: "(string \<rightharpoonup> int) \<Rightarrow> string \<Rightarrow> int" where
  "last_request locks host = (case locks host of None \<Rightarrow> 0 | Some t \<Rightarrow> t)"

text \<open>The call up to the \<open>await\<close>, at \<open>Date.now() = now\<close>; a call that does not wait goes
  on to the last line, where \<open>Date.now()\<close> answers \<open>now + late\<close>.\<close>

definition invoke :: "throttle \<Rightarrow> string \<Rightarrow> int \<Rightarrow> nat \<Rightarrow> throttle" where
  "invoke st host now late =
     (let last = last_request (hostLock st) host
      in if now - last < gap
         then st\<lparr> suspended := suspended st @ [(host, now + (gap - (now - last)))] \<rparr>
         else st\<lparr> hostLock := (hostLock st)(host \<mapsto> now + int late),
                  completed := completed st @ [(host, now + int late)] \<rparr>)"

text \<open>The call after the \<open>await\<close>: the timer of a suspended call for \<open>host\<close> has fired and
  \<open>Date.now()\<close> answers \<open>t\<close>, not before the timer was due. \<open>None\<close> when no such call is
  suspended.\<close>

definition resume :: "throttle \<Rightarrow> string \<Rightarrow> int \<Rightarrow> throttle option" where
  "resume st host t =
     (case List.find (\<lambda>(h, due). h = host \<and> due \<le> t) (suspended st) of
        None \<Rightarrow> None
      | Some c \<Rightarrow>
          Some (st\<lparr> hostLock := (hostLock st)(host \<mapsto> t),
                    suspended := remove1 c (suspended st),
                    completed := completed st @ [(host, t)] \<rparr>))"

text \<open>A call that nothing interrupts: the timer fires \<open>late\<close> milliseconds after it is due.
  The result is the new state and the completion time.\<close>

definition politeWaitForHost :: "throttle \<Rightarrow> string \<Rightarrow> int \<Rightarrow> nat \<Rightarrow> throttle \<times> int" where
  "politeWaitForHost st host now late =
     (let last = last_request (hostLock st) host;
          t = (if now - last < gap then now + (gap - (now - last)) + int late
               else now + int late)
      in (st\<lparr> hostLock := (hostLock st)(host \<mapsto> t),
              completed := completed st @ [(host, t)] \<rparr>, t))"

text \<open>What the event loop does with the tracker, in order: a call is made, or the timer
  of a suspended call fires.\<close>

datatype event = Invoke string int nat | Resume string int

fun run :: "throttle \<Rightarrow> event list \<Rightarrow> throttle option" where
  "run st [] = Some st"
| "run st (Invoke host now late # es) = run (invoke st host now late) es"
| "run st (Resume host t # es) =
     (case resume st host t of None \<Rightarrow> None | Some st' \<Rightarrow> run st' es)"

definition idle :: throttle where
  "idle = \<lparr> hostLock = Map.empty, suspended = [], completed = [] \<rparr>"

section \<open>Price and unit extraction\<close>

text \<open>
  \<^verbatim>\<open>
  const priceMatches = Array.from(content.matchAll(
      /\$\s?([0-9]{1,3}(?:,[0-9]{3})?(?:\.[0-9]{1,2})?)/g))
    .map(m=>m[1].replace(/,/g,'')).map(Number);
  const unitMatch = content.match(/(\d{1,2}\s?x\s?\d{1,2})/i);
  const unit = unitMatch ? unitMatch[1].replace(/\s+/g,'') : null;
  const price = priceMatches.length ? priceMatches[0] : null;
  const result = { price, unit, source: url };
  \<close>
  A regular expression is modelled by the function that tries it at the start of a
  text and answers the matched text and its group 1. Both expressions are made of
  greedy pieces where the greedy choice is the only one that can succeed (a character
  that a shorter choice would leave over is a digit or a white space, which nothing
  after the piece accepts), so trying the greedy choice alone is what the backtracking
  matcher finds.
\<close>

type_synonym regexp = "string \<Rightarrow> (string \<times> string) option"

text \<open>\<open>[0-9]{1,n}\<close>, greedy: the digits taken, none when the piece fails.\<close>

definition take_digits :: "nat \<Rightarrow> string \<Rightarrow> string" where
  "take_digits n s = takeWhile isDigit (take n s)"

text \<open>\<open>\s?\<close>.\<close>

definition opt_space :: "string \<Rightarrow> string" where
  "opt_space s = (case s of [] \<Rightarrow> [] | c # r \<Rightarrow> if isSpace c then [c] else [])"

text \<open>\<open>(?:,[0-9]{3})?\<close>.\<close>

definition thousands :: "string \<Rightarrow> string" where
  "thousands s =
     (if take 1 s = '','' \<and> length (take_digits 3 (drop 1 s)) = 3 then take 4 s else [])"

text \<open>\<open>(?:\.[0-9]{1,2})?\<close>.\<close>

definition cents :: "string \<Rightarrow> string" where
  "cents s =
     (if take 1 s = ''.'' \<and> take_digits 2 (drop 1 s) \<noteq> []
      then CHR ''.'' # take_digits 2 (drop 1 s) else [])"

definition price_re :: regexp where
  "price_re s =
     (if take 1 s \<noteq> ''$'' then None
      else
        (let sp = opt_space (drop 1 s);
             r1 = drop (1 + length sp) s;
             ds = take_digits 3 r1
         in if ds = [] then None
            else
              (let r2 = drop (length ds) r1;
                   th = thousands r2;
                   ce = cents (drop (length th) r2)
               in Some (''$'' @ sp @ ds @ th @ ce, ds @ th @ ce))))"

definition unit_re :: regexp where
  "unit_re s =
     (let d1 = take_digits 2 s
      in if d1 = [] then None
         else
           (let r1 = drop (length d1) s;
                s1 = opt_space r1;
                r2 = drop (length s1) r1
            in if take 1 r2 \<noteq> ''x'' \<and> take 1 r2 \<noteq> ''X'' then None
               else
                 (let r3 = drop 1 r2;
                      s2 = opt_space r3;
                      r4 = drop (length s2) r3;
                      d2 = take_digits 2 r4
                  in if d2 = [] then None
                     else (let m = d1 @ s1 @ take 1 r2 @ s2 @ d2 in Some (m, m)))))"

text \<open>\<open>content.match(re)\<close> without the \<open>g\<close> flag: the match at the first position where
  the expression matches.\<close>

fun match_re :: "regexp \<Rightarrow> string \<Rightarrow> (string \<times> string) option" where
  "match_re re [] = None"
| "match_re re (c # cs) =
     (case re (c # cs) of Some r \<Rightarrow> Some r | None \<Rightarrow> match_re re cs)"

text \<open>\<open>content.matchAll(re)\<close> with the \<open>g\<close> flag: the matches from left to right, each
  search starting where the match before ended. \<open>skip\<close> counts the characters of the
  last match that are still to pass. Neither expression matches the empty text.\<close>

fun matchAll :: "regexp \<Rightarrow> nat \<Rightarrow> string \<Rightarrow> (string \<times> string) list" where
  "matchAll re skip [] = []"
| "matchAll re skip (c # cs) =
     (if 0 < skip then matchAll re (skip - 1) cs
      else (case re (c # cs) of
              None \<Rightarrow> matchAll re 0 cs
            | Some (m, g) \<Rightarrow> (m, g) # matchAll re (length m - 1) cs))"

record scraped =
  s_price :: jsval
  s_unit :: jsval
  s_source :: string

definition extractResult :: "string \<Rightarrow> string \<Rightarrow> scraped" where
  "extractResult content url =
     (let priceMatches =
            map StringToNumber
              (map (\<lambda>(m, g). filter (\<lambda>c. c \<noteq> CHR '','') g) (matchAll price_re 0 content));
          unitMatch = match_re unit_re content;
          unit = (case unitMatch of
                    Some (m, g) \<Rightarrow> JStr (filter (\<lambda>c. \<not> isSpace c) g)
                  | None \<Rightarrow> JNull);
          price = (case priceMatches of [] \<Rightarrow> JNull | p # _ \<Rightarrow> JNumber p)
      in \<lparr> s_price = price, s_unit = unit, s_source = url \<rparr>)"

text \<open>
  The patterns in words, for the statements about \<open>extractResult\<close>: a dollar amount is \<open>$\<close>,
  at most one white space, one to three digits, optionally a comma and three digits,
  optionally a point and one or two digits; the amount is what follows the white space.
  A unit size is one or two digits, at most one white space, \<open>x\<close> or \<open>X\<close>, at most one
  white space, one or two digits.
\<close>

definition digits :: "string \<Rightarrow> bool" where
  "digits s \<longleftrightarrow> s \<noteq> [] \<and> list_all isDigit s"

definition space_opt :: "string \<Rightarrow> bool" where
  "space_opt sp \<longleftrightarrow> sp = [] \<or> (\<exists>c. sp = [c] \<and> isSpace c)"

definition dollar_amount :: "string \<Rightarrow> string \<Rightarrow> bool" where
  "dollar_amount w g \<longleftrightarrow>
     (\<exists>sp ds th ce.
        w = ''$'' @ sp @ g \<and> g = ds @ th @ ce \<and> space_opt sp
        \<and> digits ds \<and> length ds \<le> 3
        \<and> (th = [] \<or> (\<exists>t. th = CHR '','' # t \<and> digits t \<and> length t = 3))
        \<and> (ce = [] \<or> (\<exists>t. ce = CHR ''.'' # t \<and> digits t \<and> length t \<le> 2)))"

definition unit_size :: "string \<Rightarrow> bool" where
  "unit_size w \<longleftrightarrow>
     (\<exists>d1 s1 x s2 d2.
        w = d1 @ s1 @ [x] @ s2 @ d2 \<and> digits d1 \<and> length d1 \<le> 2 \<and> space_opt s1
        \<and> (x = CHR ''x'' \<or> x = CHR ''X'') \<and> space_opt s2 \<and> digits d2 \<and> length d2 \<le> 2)"

text \<open>A text of the pattern starts at position \<open>i\<close> of the content.\<close>

definition occurs_at :: "(string \<Rightarrow> bool) \<Rightarrow> string \<Rightarrow> nat \<Rightarrow> bool" where
  "occurs_at pat content i \<longleftrightarrow> (\<exists>w. pat w \<and> prefix w (drop i content))"

definition dollar_text :: "string \<Rightarrow> bool" where
  "dollar_text w \<longleftrightarrow> (\<exists>g. dollar_amount w g)"

text \<open>\<open>w\<close> is the first match of the pattern in document order: it stands in the
  content, no text of the pattern starts before it, and it is the longest text of the
  pattern that starts where it starts.\<close>

definition first_match :: "(string \<Rightarrow> bool) \<Rightarrow> string \<Rightarrow> string \<Rightarrow> bool" where
  "first_match pat content w \<longleftrightarrow>
     (\<exists>pre post. content = pre @ w @ post \<and> pat w
        \<and> (\<forall>j < length pre. \<not> occurs_at pat content j)
        \<and> (\<forall>w'. pat w' \<and> prefix w' (w @ post) \<longrightarrow> prefix w' w))"

section \<open>Location resolution and the scan\<close>

subsection \<open>The outside world\<close>

text \<open>
  What the server reaches over the network answers through parameters that take and
  return the state of the outside, so that the same request may be answered differently
  the next time. The requests that the modelled code sends itself are logged. A thrown
  \<open>Error\<close> is \<open>Inl\<close> of its message.
\<close>

datatype request = Geocode string

record 'w world =
  requests :: "request list"
  outside :: 'w

type_synonym ('w, 'a) action = "'w world \<Rightarrow> (string + 'a) \<times> 'w world"

subsection \<open>The first lines of \<open>placesNearby\<close>\<close>

text \<open>
  \<^verbatim>\<open>
  let latlng = addressOrLatLng;
  if(!/^-?\d+\.\d+,-?\d+\.\d+$/.test(addressOrLatLng)){
    const geoUrl = `https://maps.googleapis.com/maps/api/geocode/json?address=${
      encodeURIComponent(addressOrLatLng)}&key=${GOOGLE_KEY}`;
    const geoRes = await fetch(geoUrl).then(r=>r.json());
    if(!geoRes.results || !geoRes.results.length) throw new Error('geocode failed');
    const loc = geoRes.results[0].geometry.location;
    latlng = `${loc.lat},${loc.lng}`;
  }
  const [lat, lng] = latlng.split(',').map(Number);
  \<close>
\<close>

text \<open>\<open>-?\d+\.\d+\<close> at the start of a text: the rest of the text after it.\<close>

definition coord_part :: "string \<Rightarrow> string option" where
  "coord_part s =
     (let r0 = (if take 1 s = ''-'' then drop 1 s else s);
          a = takeWhile isDigit r0;
          r1 = dropWhile isDigit r0
      in if a = [] \<or> take 1 r1 \<noteq> ''.'' then None
         else
           (let b = takeWhile isDigit (drop 1 r1)
            in if b = [] then None else Some (dropWhile isDigit (drop 1 r1))))"

text \<open>\<open>/^-?\d+\.\d+,-?\d+\.\d+$/.test(s)\<close>.\<close>

definition is_latlng :: "string \<Rightarrow> bool" where
  "is_latlng s =
     (case coord_part s of
        None \<Rightarrow> False
      | Some r \<Rightarrow> take 1 r = '','' \<and> coord_part (drop 1 r) = Some [])"

text \<open>The pattern in words: two numbers separated by a comma, each an optional minus
  sign, digits, a point and digits.\<close>

definition signed_decimal :: "string \<Rightarrow> bool" where
  "signed_decimal s \<longleftrightarrow>
     (\<exists>m a b. s = m @ a @ ''.'' @ b \<and> (m = [] \<or> m = ''-'') \<and> digits a \<and> digits b)"

definition latlng_text :: "string \<Rightarrow> bool" where
  "latlng_text s \<longleftrightarrow> (\<exists>x y. s = x @ '','' @ y \<and> signed_decimal x \<and> signed_decimal y)"

text \<open>The number that a signed decimal spells, from its sign, its digits before the point
  and its digits after the point.\<close>

definition decimal_value :: "string \<Rightarrow> string \<Rightarrow> string \<Rightarrow> rat" where
  "decimal_value m a b =
     (if m = ''-'' then - 1 else 1)
       * (of_nat (digits_val a) + of_nat (digits_val b) / 10 ^ length b)"

text \<open>\<open>s.split(c)\<close>.\<close>

fun split_acc :: "char \<Rightarrow> string \<Rightarrow> string \<Rightarrow> string list" where
  "split_acc c acc [] = [rev acc]"
| "split_acc c acc (x # xs) =
     (if x = c then rev acc # split_acc c [] xs else split_acc c (x # acc) xs)"

definition split :: "string \<Rightarrow> char \<Rightarrow> string list" where
  "split s c = split_acc c [] s"

text \<open>\<open>const [lat, lng] = latlng.split(',').map(Number)\<close>; a part that is missing is
  \<open>undefined\<close>, which the model gives as NaN.\<close>

definition parse_latlng :: "string \<Rightarrow> number \<times> number" where
  "parse_latlng latlng =
     (case map StringToNumber (split latlng CHR '','') of
        [] \<Rightarrow> (None, None)
      | [a] \<Rightarrow> (a, None)
      | a # b # _ \<Rightarrow> (a, b))"

text \<open>The geocoding answer: its \<open>results\<close> field is absent or a list, and each result stands for
  its \<open>geometry.location\<close>.\<close>

record location =
  lat :: rat
  lng :: rat

record geo_response =
  geo_results :: "location list option"

text \<open>\<open>fetch(geoUrl).then(r=>r.json())\<close>: one request to the geocoding service, which is
  identified by the address it carries.\<close>

definition fetch_geocode ::
  "(string \<Rightarrow> 'w \<Rightarrow> (string + geo_response) \<times> 'w) \<Rightarrow> string \<Rightarrow> ('w, geo_response) action" where
  "fetch_geocode provider addr w =
     (let (r, x) = provider addr (outside w)
      in (r, w\<lparr> requests := requests w @ [Geocode addr], outside := x \<rparr>))"

text \<open>The coordinate that the lines above leave in \<open>lat\<close> and \<open>lng\<close>. In the geocoding
  branch the numbers are printed into \<open>latlng\<close> and read back, which gives them back.\<close>

definition resolve_latlng ::
  "(string \<Rightarrow> 'w \<Rightarrow> (string + geo_response) \<times> 'w) \<Rightarrow> string \<Rightarrow> ('w, number \<times> number) action" where
  "resolve_latlng provider addressOrLatLng w =
     (if \<not> is_latlng addressOrLatLng then
        (case fetch_geocode provider addressOrLatLng w of
           (Inl e, w') \<Rightarrow> (Inl e, w')
         | (Inr geoRes, w') \<Rightarrow>
             (case geo_results geoRes of
                None \<Rightarrow> (Inl ''geocode failed'', w')
              | Some [] \<Rightarrow> (Inl ''geocode failed'', w')
              | Some (loc # _) \<Rightarrow> (Inr (Some (lat loc), Some (lng loc)), w')))
      else (Inr (parse_latlng addressOrLatLng), w))"

subsection \<open>\<open>POST /api/scan\<close>\<close>

text \<open>
  \<^verbatim>\<open>
  const { facilityName, address, radius } = req.body;
  if(!address) return res.status(400).json({ error: 'address required' });
  const places = await placesNearby(address, radius || 10);
  const results = [];
  for(const p of places.slice(0, 20)){ // limit to 20 to avoid long runs
    try{
      const details = await placeDetails(p.place_id);
      const website = (details && details.website) || null;
      let scraped = null;
      if(website){
        try{
          scraped = await scrapeSiteForPrice(website);
        }catch(e){
          scraped = { error: 'scrape failed' };
        }
      }
      results.push({
        name: p.name,
        address: details && details.formatted_address || p.address,
        place_id: p.place_id,
        website: website,
        distance: null,
        unit: scraped && scraped.unit,
        price: scraped && scraped.price,
        source: website ? 'website' : 'places',
        availability: scraped && scraped.availability
      });
    }catch(e){
      results.push({ name: p.name, address: p.address, error: e.message });
    }
  }
  res.json({ competitors: results });
  \<close>
  with a \<open>catch\<close> around all of it that answers \<open>res.status(500).json({ error: err.message })\<close>.
  The rest of \<open>placesNearby\<close> after the coordinate (radius, cache, nearby search),
  \<open>placeDetails\<close> and \<open>scrapeSiteForPrice\<close> are parameters: what is stated about the scan
  holds whatever they do. The \<open>address\<close> of the request is a text or absent.
\<close>

record place =
  pl_place_id :: string
  pl_name :: string
  pl_address :: string

record details =
  d_website :: "string option"
  d_formatted_address :: "string option"

record 'w env =
  geocode :: "string \<Rightarrow> 'w \<Rightarrow> (string + geo_response) \<times> 'w"
  nearby :: "number \<times> number \<Rightarrow> jsval \<Rightarrow> ('w, place list) action"
  placeDetails :: "string \<Rightarrow> ('w, details option) action"
  scrapeSiteForPrice :: "string \<Rightarrow> ('w, scraped) action"

definition placesNearby :: "'w env \<Rightarrow> string \<Rightarrow> jsval \<Rightarrow> ('w, place list) action" where
  "placesNearby env addressOrLatLng radiusMiles w =
     (case resolve_latlng (geocode env) addressOrLatLng w of
        (Inl e, w') \<Rightarrow> (Inl e, w')
      | (Inr latlng, w') \<Rightarrow> nearby env latlng radiusMiles w')"

text \<open>The variable \<open>scraped\<close>: \<open>null\<close>, the object \<open>{ error: 'scrape failed' }\<close>, or the
  result of the scrape; and the reads \<open>scraped && scraped.unit\<close>, \<open>scraped && scraped.price\<close>
  and \<open>scraped && scraped.availability\<close>, where a result has no \<open>availability\<close>.\<close>

datatype scraped_var = NotScraped | ScrapeFailed | Scraped scraped

fun scraped_unit :: "scraped_var \<Rightarrow> jsval" where
  "scraped_unit NotScraped = JNull"
| "scraped_unit ScrapeFailed = JUndefined"
| "scraped_unit (Scraped r) = s_unit r"

fun scraped_price :: "scraped_var \<Rightarrow> jsval" where
  "scraped_price NotScraped = JNull"
| "scraped_price ScrapeFailed = JUndefined"
| "scraped_price (Scraped r) = s_price r"

fun scraped_availability :: "scraped_var \<Rightarrow> jsval" where
  "scraped_availability NotScraped = JNull"
| "scraped_availability ScrapeFailed = JUndefined"
| "scraped_availability (Scraped r) = JUndefined"

text \<open>\<open>x || y\<close> on an optional text: the empty text is falsy.\<close>

definition or_else :: "string option \<Rightarrow> string option \<Rightarrow> string option" where
  "or_else x y = (case x of None \<Rightarrow> y | Some t \<Rightarrow> if t = [] then y else Some t)"

text \<open>The body of the loop for one place.\<close>

definition scan_place :: "'w env \<Rightarrow> place \<Rightarrow> 'w world \<Rightarrow> entry \<times> 'w world" where
  "scan_place env p w =
     (case placeDetails env (pl_place_id p) w of
        (Inl msg, w1) \<Rightarrow> (Failed (pl_name p) (pl_address p) msg, w1)
      | (Inr dt, w1) \<Rightarrow>
          (let site = or_else (case dt of None \<Rightarrow> None | Some d \<Rightarrow> d_website d) None;
               (scraped, w2) =
                 (case site of
                    None \<Rightarrow> (NotScraped, w1)
                  | Some url \<Rightarrow>
                      (case scrapeSiteForPrice env url w1 of
                         (Inl e, w2) \<Rightarrow> (ScrapeFailed, w2)
                       | (Inr r, w2) \<Rightarrow> (Scraped r, w2)))
           in (Competitor
                 \<lparr> name = pl_name p,
                   address = the (or_else (case dt of None \<Rightarrow> None
                                           | Some d \<Rightarrow> d_formatted_address d)
                                          (Some (pl_address p))),
                   place_id = pl_place_id p,
                   website = site,
                   distance = JNull,
                   unit = scraped_unit scraped,
                   price = scraped_price scraped,
                   source = (if site \<noteq> None then ''website'' else ''places''),
                   availability = scraped_availability scraped \<rparr>, w2)))"

fun scan_loop :: "'w env \<Rightarrow> place list \<Rightarrow> entry list \<Rightarrow> 'w world \<Rightarrow> entry list \<times> 'w world" where
  "scan_loop env [] results w = (results, w)"
| "scan_loop env (p # ps) results w =
     (let (e, w') = scan_place env p w in scan_loop env ps (results @ [e]) w')"

text \<open>Truthiness, for \<open>radius || 10\<close>.\<close>

fun truthy :: "jsval \<Rightarrow> bool" where
  "truthy JUndefined = False"
| "truthy JNull = False"
| "truthy (JBool b) = b"
| "truthy (JNumber n) = (n \<noteq> None \<and> n \<noteq> Some 0)"
| "truthy (JStr s) = (s \<noteq> [])"

record scan_body =
  facilityName :: jsval
  scan_address :: "string option"
  radius :: jsval

definition scan :: "'w env \<Rightarrow> scan_body \<Rightarrow> 'w world \<Rightarrow> entry list reply \<times> 'w world" where
  "scan env body w =
     (case or_else (scan_address body) None of
        None \<Rightarrow> (Status 400 ''address required'', w)
      | Some addr \<Rightarrow>
          (case placesNearby env addr
                  (if truthy (radius body) then radius body else JNumber (Some 10)) w of
             (Inl msg, w') \<Rightarrow> (Status 500 msg, w')
           | (Inr places, w') \<Rightarrow>
               (let (results, w'') = scan_loop env (take 20 places) [] w'
                in (Json results, w''))))"

section \<open>\<open>median\<close> on arrays held by reference\<close>

text \<open>
  To say what \<open>median\<close> does to the array of its caller, arrays live in a store and are
  passed by reference (an index into the store). \<open>slice()\<close> puts a copy at a new
  reference; \<open>sort\<close> sorts the array at its reference in place and answers the same
  reference.
\<close>

type_synonym store = "rat list list"

definition Array_slice :: "store \<Rightarrow> nat \<Rightarrow> nat \<times> store" where
  "Array_slice h a = (length h, h @ [h ! a])"

definition Array_sort :: "store \<Rightarrow> nat \<Rightarrow> (rat \<Rightarrow> rat \<Rightarrow> rat) \<Rightarrow> nat \<times> store" where
  "Array_sort h a cmp = (a, h[a := sort_by cmp (h ! a)])"

definition median_store :: "store \<Rightarrow> nat \<Rightarrow> rat option \<times> store" where
  "median_store h arr =
     (if length (h ! arr) = 0 then (None, h)
      else
        (let (c, h1) = Array_slice h arr;
             (s, h2) = Array_sort h1 c (\<lambda>a b. a - b);
             m = length (h2 ! s) div 2
         in (if length (h2 ! s) mod 2 \<noteq> 0 then Some (h2 ! s ! m)
             else Some ((h2 ! s ! (m - 1) + h2 ! s ! m) / 2), h2)))"

section \<open>Example data\<close>

text \<open>A scan of places with websites: the scrape of the site of \<open>p1\<close> fails after its
  retries, every other site shows a price. The place search answers the given places
  for any coordinate, and the geocoding service knows no address.\<close>

definition example_places :: "place list" where
  "example_places =
     [\<lparr> pl_place_id = ''p1'', pl_name = ''Store A'', pl_address = ''1 Main St'' \<rparr>,
      \<lparr> pl_place_id = ''p2'', pl_name = ''Store B'', pl_address = ''2 Main St'' \<rparr>]"

definition example_env :: "place list \<Rightarrow> unit env" where
  "example_env places =
     \<lparr> geocode = (\<lambda>a x. (Inr \<lparr> geo_results = Some [] \<rparr>, x)),
       nearby = (\<lambda>latlng r w. (Inr places, w)),
       placeDetails = (\<lambda>i w.
         (Inr (Some \<lparr> d_website = Some (''https://'' @ i @ ''.example''),
                        d_formatted_address = None \<rparr>), w)),
       scrapeSiteForPrice = (\<lambda>u w.
         if u = ''https://p1.example'' then (Inl ''Timeout 30000ms exceeded'', w)
         else (Inr (extractResult ''Starting at $89.99 for a 10x10 unit'' u), w)) \<rparr>"

text \<open>A scraped competitor record with the given \<open>price\<close> field.\<close>

definition priced :: "jsval \<Rightarrow> entry" where
  "priced p =
     Competitor \<lparr> name = ''Store A'', address = ''1 Main St'', place_id = ''p1'',
                   website = Some ''http://a.example'', distance = JNull,
                   unit = JStr ''10x10'', price = p, source = ''website'',
                   availability = JUndefined \<rparr>"

definition example_body :: "string \<Rightarrow> scan_body" where
  "example_body addr = \<lparr> facilityName = JStr ''My Storage'', scan_address = Some addr,
                         radius = JNumber (Some 10) \<rparr>"

definition world0 :: "unit world" where
  "world0 = \<lparr> requests = [], outside = () \<rparr>"

text \<open>How an entry is made from a place: it carries the name of the place, and its
  identifier (the full record) or its address (the error record).\<close>

fun made_from :: "place \<Rightarrow> entry \<Rightarrow> bool" where
  "made_from p (Competitor c) \<longleftrightarrow> name c = pl_name p \<and> place_id c = pl_place_id p"
| "made_from p (Failed n a e) \<longleftrightarrow> n = pl_name p \<and> a = pl_address p"

section \<open>Properties of the aggregator\<close>

subsection \<open>Evaluating \<open>Math.round\<close>\<close>

lemma floor_rat_numeral_divide [simp]:
  "\<lfloor>numeral a / numeral b :: rat\<rfloor> = numeral a div numeral b"
  by (metis floor_divide_of_int_eq of_int_numeral)

lemma floor_rat_one_divide [simp]:
  "\<lfloor>1 / numeral b :: rat\<rfloor> = 1 div numeral b"
  by (metis floor_divide_of_int_eq of_int_1 of_int_numeral)

lemma Math_round_near: "\<bar>Math_round x - x\<bar> \<le> 1 / 2"
  unfolding Math_round_def by linarith

lemma Math_round_two_places: "\<bar>Math_round (x * 100) / 100 - x\<bar> \<le> 1 / 200"
  using Math_round_near [of "x * 100"] by (simp add: abs_le_iff field_simps)

subsection \<open>The comparator sort is the ascending sort\<close>

lemma mset_insert_by: "mset (insert_by cmp x xs) = add_mset x (mset xs)"
  by (induction xs) auto

lemma mset_sort_by: "mset (sort_by cmp xs) = mset xs"
  by (induction xs) (auto simp: sort_by_def mset_insert_by)

lemma length_sort_by: "length (sort_by cmp xs) = length xs"
  by (metis mset_sort_by size_mset)

lemma set_insert_by: "set (insert_by cmp x xs) = insert x (set xs)"
  by (induction xs) auto

lemma sorted_insert_by:
  fixes x :: rat
  shows "sorted xs \<Longrightarrow> sorted (insert_by (\<lambda>a b. a - b) x xs)"
  by (induction xs) (auto simp: set_insert_by)

lemma sorted_sort_by: "sorted (sort_by (\<lambda>a b. a - b) (xs :: rat list))"
  by (induction xs) (auto simp: sort_by_def sorted_insert_by)

lemma sort_by_unique:
  fixes s :: "rat list"
  assumes "sorted s" and "mset s = mset xs"
  shows "sort_by (\<lambda>a b. a - b) xs = s"
proof -
  have "sort_by (\<lambda>a b. a - b) xs = sort xs"
    by (rule properties_for_sort [symmetric]) (simp_all add: mset_sort_by sorted_sort_by)
  moreover have "s = sort xs"
    by (rule properties_for_sort [symmetric]) (simp_all add: assms)
  ultimately show ?thesis by simp
qed

lemma median_sorted:
  fixes s :: "rat list"
  assumes "arr \<noteq> []" and "sorted s" and "mset s = mset arr"
  shows "median arr =
           Some (if odd (length arr) then s ! (length arr div 2)
                 else (s ! (length arr div 2 - 1) + s ! (length arr div 2)) / 2)"
proof -
  have s: "sort_by (\<lambda>a b. a - b) arr = s"
    using assms(2,3) by (rule sort_by_unique)
  have l: "length s = length arr"
    using assms(3) by (metis size_mset)
  show ?thesis
    using assms(1) by (simp add: median_def s l Let_def odd_iff_mod_2_eq_one)
qed

text \<open>
  C3. \<open>median\<close> of the empty list is absent; \<open>median [5] = 5\<close>, \<open>median [1,3] = 2\<close>,
  \<open>median [1,2,3] = 2\<close>, \<open>median [1,2,3,4] = 2.5\<close>; and for every non-empty list, with
  \<open>s\<close> its ascending arrangement (sorted, same elements with the same multiplicities),
  the result is the middle element of \<open>s\<close> when the count is odd and the arithmetic mean
  of the two middle elements when it is even.
\<close>

theorem median_middle_of_sorted:
  "(\<forall>arr s. arr \<noteq> [] \<and> sorted s \<and> mset s = mset arr \<longrightarrow>
      median arr =
        Some (if odd (length arr) then s ! (length arr div 2)
              else (s ! (length arr div 2 - 1) + s ! (length arr div 2)) / 2))
   \<and> median [] = None
   \<and> median [5] = Some 5
   \<and> median [1, 3] = Some 2
   \<and> median [1, 2, 3] = Some 2
   \<and> median [1, 2, 3, 4] = Some (5 / 2)"
proof -
  have "median [] = None" "median [5] = Some 5" "median [1, 3] = Some 2"
    "median [1, 2, 3] = Some 2" "median [1, 2, 3, 4] = Some (5 / 2)"
    by (simp_all add: median_def sort_by_def)
  then show ?thesis
    using median_sorted by blast
qed

theorem median_middle_of_sorted_witness:
  "[3, 1, 2 :: rat] \<noteq> [] \<and> sorted [1, 2, 3 :: rat] \<and> mset [1, 2, 3 :: rat] = mset [3, 1, 2]
   \<and> median [3, 1, 2] = Some 2
   \<and> sorted [1, 4, 6, 9 :: rat] \<and> mset [1, 4, 6, 9 :: rat] = mset [9, 1, 6, 4]
   \<and> median [9, 1, 6, 4] = Some 5"
proof -
  have a: "[3, 1, 2 :: rat] \<noteq> [] \<and> sorted [1, 2, 3 :: rat] \<and> mset [1, 2, 3 :: rat] = mset [3, 1, 2]"
    by simp
  have b: "[9, 1, 6, 4 :: rat] \<noteq> [] \<and> sorted [1, 4, 6, 9 :: rat]
           \<and> mset [1, 4, 6, 9 :: rat] = mset [9, 1, 6, 4]"
    by simp
  note g = median_middle_of_sorted [THEN conjunct1, rule_format]
  from g [OF a] have "median [3, 1, 2] = Some 2" by simp
  moreover from g [OF b] have "median [9, 1, 6, 4] = Some 5" by simp
  ultimately show ?thesis using a b by simp
qed


subsection \<open>When \<open>suggest\<close> fails, and what it recommends\<close>

lemma median_None_iff: "median arr = None \<longleftrightarrow> arr = []"
  unfolding median_def Let_def by (simp del: not_None_eq)

text \<open>The reading of texts by \<open>Number\<close>: literals with a radix prefix have their value,
  and the texts that spell an infinity, for which the model has no number, read as NaN.
  The two statements after these are for lists with no such text.\<close>

lemma StringToNumber_radix:
  "map StringToNumber [''0x10'', ''0b11'', ''0o17'', ''0XfF'', ''0x'', ''-0x10'']
     = [Some 16, Some 3, Some 15, Some 255, None, None]"
  by (simp add: StringToNumber_def trim_def isSpace_def unsigned_decimal_def isDigit_def
      exponent_part_def digits_val_def digit_val_def non_decimal_def radix_value_def
      radix_digit_def)

lemma StringToNumber_infinity_text: "infinity_text s \<Longrightarrow> StringToNumber s = None"
  unfolding infinity_text_def StringToNumber_def
  by (auto simp: unsigned_decimal_def isDigit_def exponent_part_def non_decimal_def)

lemma prices_of_Nil_iff:
  assumes "no_infinity_text cs"
  shows "prices_of cs = [] \<longleftrightarrow>
     (\<forall>c \<in> set (case cs of None \<Rightarrow> [] | Some l \<Rightarrow> l). Number (price_of c) = None)"
  by (auto simp: prices_of_def isNaN_def filter_empty_conv)

lemma suggest_fails_iff:
  assumes "no_infinity_text cs"
  shows "suggest cs = Status 400 ''no competitor prices available'' \<longleftrightarrow> prices_of cs = []"
  using median_None_iff [of "prices_of cs"]
  by (auto simp: suggest_def Let_def split: option.splits)

lemma suggest_value:
  assumes "median (prices_of cs) = Some m"
  shows "suggest cs =
           Json \<lparr> recommendedPrice = Math_round (m * (1 - 6 / 100) * 100) / 100,
                  confidence = 6 / 10 \<rparr>"
  using assms by (simp add: suggest_def alpha_def)

lemmas suggest_eval =
  suggest_def prices_of_def isNaN_def median_def sort_by_def Math_round_def alpha_def

text \<open>
  C1. The claim: when the competitor list is empty or every price field is absent,
  \<open>null\<close> or non-numeric text, \<open>suggest\<close> fails with status 400, and with at least one
  numeric price it does not fail. The code does not fail on \<open>null\<close>: \<open>Number(null)\<close> is 0,
  which the NaN filter keeps. For the one record that a scan gives for a place without a
  website (price \<open>null\<close>), the answer is a recommendation of 0.
\<close>

theorem suggest_null_price_recommends_zero:
  "suggest (Some [Competitor \<lparr> name = ''Store A'', address = ''1 Main St'', place_id = ''p1'',
                                website = None, distance = JNull, unit = JNull,
                                price = JNull, source = ''places'',
                                availability = JNull \<rparr>])
   = Json \<lparr> recommendedPrice = 0, confidence = 6 / 10 \<rparr>"
  by (simp add: suggest_eval)

text \<open>
  C4. The claim: with at least one numeric price, \<open>suggest\<close> takes the median \<open>m\<close> of the
  numeric prices and recommends \<open>m \<times> 0.94\<close> rounded to two places, with confidence 0.6;
  for 100, 120, 110 that is 103.4. The code takes the median over every price that
  \<open>Number\<close> does not turn into NaN, and \<open>null\<close> counts as 0 there: for the prices 100,
  \<open>null\<close>, \<open>null\<close> the only numeric price is 100, which would give 94, and the answer
  is 0. For 100, 120, 110 the answer is 103.4.
\<close>

theorem suggest_null_prices_enter_median:
  "suggest (Some [Competitor \<lparr> name = ''Store A'', address = ''1 Main St'', place_id = ''p1'',
                                website = Some ''http://a.example'', distance = JNull,
                                unit = JStr ''10x10'', price = JNumber (Some 100),
                                source = ''website'', availability = JUndefined \<rparr>,
                  Competitor \<lparr> name = ''Store B'', address = ''2 Main St'', place_id = ''p2'',
                                website = None, distance = JNull, unit = JNull,
                                price = JNull, source = ''places'', availability = JNull \<rparr>,
                  Competitor \<lparr> name = ''Store C'', address = ''3 Main St'', place_id = ''p3'',
                                website = None, distance = JNull, unit = JNull,
                                price = JNull, source = ''places'', availability = JNull \<rparr>])
   = Json \<lparr> recommendedPrice = 0, confidence = 6 / 10 \<rparr>
   \<and> suggest (Some [Competitor \<lparr> name = ''Store A'', address = ''1 Main St'', place_id = ''p1'',
                                website = Some ''http://a.example'', distance = JNull,
                                unit = JStr ''10x10'', price = JNumber (Some 100),
                                source = ''website'', availability = JUndefined \<rparr>])
   = Json \<lparr> recommendedPrice = 94, confidence = 6 / 10 \<rparr>
   \<and> suggest (Some [priced (JNumber (Some 100)), priced (JNumber (Some 120)),
                     priced (JNumber (Some 110))])
   = Json \<lparr> recommendedPrice = 1034 / 10, confidence = 6 / 10 \<rparr>"
  by (simp add: suggest_eval priced_def)


section \<open>Properties of the cache\<close>

lemma card_dom_delete:
  "finite (dom c) \<Longrightarrow> card (dom (c(k := None))) = card (dom (c(k \<mapsto> e))) - 1"
  by (cases "k \<in> dom c") (simp_all add: insert_absorb)

lemma getCache_fresh:
  "of_int t1 \<le> of_int t0 + ttl * 1000 \<Longrightarrow>
   getCache (setCache c k v (Some ttl) t0) k t1 = (Some v, setCache c k v (Some ttl) t0)"
  by (simp add: getCache_def setCache_def)

lemma getCache_expired:
  "of_int t0 + ttl * 1000 < of_int t1 \<Longrightarrow>
   getCache (setCache c k v (Some ttl) t0) k t1 = (None, c(k := None))"
  by (simp add: getCache_def setCache_def)

lemma getCache_expired_size:
  "finite (dom c) \<Longrightarrow> of_int t0 + ttl * 1000 < of_int t1 \<Longrightarrow>
   cache_size (snd (getCache (setCache c k v (Some ttl) t0) k t1))
     = cache_size (setCache c k v (Some ttl) t0) - 1"
  using card_dom_delete [of c k]
  by (simp add: getCache_expired) (simp add: setCache_def cache_size_def)

lemma getCache_not_past_expiry:
  "fst (getCache c k t) = Some v \<Longrightarrow> \<exists>e. c k = Some e \<and> val e = v \<and> of_int t \<le> expires e"
  by (auto simp: getCache_def split: option.splits if_splits)

lemma getCache_other_key:
  "k' \<noteq> k \<Longrightarrow> snd (getCache c k' t) k = c k"
  by (simp add: getCache_def split: option.splits)

lemma setCache_other_key:
  "k' \<noteq> k \<Longrightarrow> setCache c k' v ttl t k = c k"
  by (simp add: setCache_def)

text \<open>
  C5. After \<open>set(k, v, ttl)\<close> at time \<open>t0\<close>, a \<open>get(k)\<close> at a time \<open>t1\<close> with no more than
  \<open>ttl\<close> seconds elapsed answers \<open>v\<close> and leaves the store as it is; a \<open>get(k)\<close> with
  more than \<open>ttl\<close> seconds elapsed answers absence and removes the entry, so that the
  size of the store is one less; and in any store, what \<open>get\<close> answers is the value of
  an entry whose expiry is not before the time of the call.
\<close>

theorem cache_returns_until_expiry:
  "(of_int t1 \<le> of_int t0 + ttl * 1000 \<longrightarrow>
      getCache (setCache c k v (Some ttl) t0) k t1 = (Some v, setCache c k v (Some ttl) t0))
   \<and> (of_int t0 + ttl * 1000 < of_int t1 \<longrightarrow>
        fst (getCache (setCache c k v (Some ttl) t0) k t1) = None
        \<and> snd (getCache (setCache c k v (Some ttl) t0) k t1) k = None
        \<and> (finite (dom c) \<longrightarrow>
             cache_size (snd (getCache (setCache c k v (Some ttl) t0) k t1))
               = cache_size (setCache c k v (Some ttl) t0) - 1))
   \<and> (\<forall>c' k' t v'. fst (getCache c' k' t) = Some v' \<longrightarrow>
         (\<exists>e. c' k' = Some e \<and> val e = v' \<and> of_int t \<le> expires e))"
proof (intro conjI impI allI)
  assume "of_int t1 \<le> of_int t0 + ttl * 1000"
  then show "getCache (setCache c k v (Some ttl) t0) k t1
               = (Some v, setCache c k v (Some ttl) t0)"
    by (rule getCache_fresh)
next
  assume "of_int t0 + ttl * 1000 < of_int t1"
  then show "fst (getCache (setCache c k v (Some ttl) t0) k t1) = None"
    by (simp add: getCache_expired)
next
  assume "of_int t0 + ttl * 1000 < of_int t1"
  then show "snd (getCache (setCache c k v (Some ttl) t0) k t1) k = None"
    by (simp add: getCache_expired)
next
  assume "of_int t0 + ttl * 1000 < of_int t1" and "finite (dom c)"
  then show "cache_size (snd (getCache (setCache c k v (Some ttl) t0) k t1))
               = cache_size (setCache c k v (Some ttl) t0) - 1"
    by (simp add: getCache_expired_size)
next
  fix c' :: "'b cache" and k' t v'
  assume "fst (getCache c' k' t) = Some v'"
  then show "\<exists>e. c' k' = Some e \<and> val e = v' \<and> of_int t \<le> expires e"
    by (rule getCache_not_past_expiry)
qed

theorem cache_returns_until_expiry_witness:
  "rat_of_int 500 \<le> of_int 0 + 1 * 1000
   \<and> getCache (setCache Map.empty ''k'' ''v'' (Some 1) 0) ''k'' 500
       = (Some ''v'', setCache Map.empty ''k'' ''v'' (Some 1) 0)
   \<and> rat_of_int 0 + 1 * 1000 < of_int 1001
   \<and> fst (getCache (setCache Map.empty ''k'' ''v'' (Some 1) 0) ''k'' 1001) = None
   \<and> finite (dom (Map.empty :: string cache))
   \<and> cache_size (snd (getCache (setCache Map.empty ''k'' ''v'' (Some 1) 0) ''k'' 1001)) = 0"
proof -
  note t = cache_returns_until_expiry [of 500 0 1 Map.empty "''k''" "''v''"]
  note u = cache_returns_until_expiry [of 1001 0 1 "Map.empty :: string cache" "''k''" "''v''"]
  have a: "rat_of_int 500 \<le> of_int 0 + 1 * 1000" by simp
  have b: "rat_of_int 0 + 1 * 1000 < of_int 1001" by simp
  have c: "cache_size (setCache Map.empty ''k'' ''v'' (Some 1) 0) = 1"
    by (simp add: cache_size_def setCache_def)
  from t a have "getCache (setCache Map.empty ''k'' ''v'' (Some 1) 0) ''k'' 500
       = (Some ''v'', setCache Map.empty ''k'' ''v'' (Some 1) 0)"
    by blast
  moreover from u b
  have "fst (getCache (setCache Map.empty ''k'' ''v'' (Some 1) 0) ''k'' 1001) = None"
    by blast
  moreover
  have "cache_size (snd (getCache (setCache Map.empty ''k'' ''v'' (Some 1) 0) ''k'' 1001)) = 0"
  proof -
    from u b have "finite (dom (Map.empty :: string cache)) \<longrightarrow>
        cache_size (snd (getCache (setCache Map.empty ''k'' ''v'' (Some 1) 0) ''k'' 1001))
          = cache_size (setCache Map.empty ''k'' ''v'' (Some 1) 0) - 1"
      by blast
    then show ?thesis by (simp add: c)
  qed
  ultimately show ?thesis using a b by simp
qed

section \<open>Properties of the politeness tracker\<close>

text \<open>A call that nothing interrupts is the call followed by its own timer.\<close>

lemma politeWaitForHost_steps:
  assumes "suspended st = []"
  shows "Some (fst (politeWaitForHost st host now late)) =
           (if now - last_request (hostLock st) host < gap
            then resume (invoke st host now late) host
                   (now + (gap - (now - last_request (hostLock st) host)) + int late)
            else Some (invoke st host now late))"
  using assms by (simp add: politeWaitForHost_def invoke_def resume_def Let_def)

lemma politeWaitForHost_gap:
  assumes "hostLock st host = Some t1"
  shows "gap \<le> snd (politeWaitForHost st host now late) - t1"
  using assms by (simp add: politeWaitForHost_def last_request_def Let_def)

text \<open>Two calls for one host that do not overlap, with calls for other hosts between
  them, complete at least two seconds apart.\<close>

lemma politeWaitForHost_successive:
  assumes "politeWaitForHost st host now1 late1 = (st1, t1)"
    and "hostLock st2 host = hostLock st1 host"
    and "politeWaitForHost st2 host now2 late2 = (st3, t2)"
  shows "2000 \<le> t2 - t1"
proof -
  have "hostLock st1 host = Some t1"
    using assms(1) by (auto simp: politeWaitForHost_def Let_def)
  with assms(2) have "hostLock st2 host = Some t1" by simp
  from politeWaitForHost_gap [OF this, of now2 late2] assms(3) show ?thesis
    by (simp add: gap_def)
qed

text \<open>A call for another host neither changes the entry of this host nor depends on it.\<close>

lemma politeWaitForHost_other_host:
  assumes "host' \<noteq> host"
  shows "hostLock (fst (politeWaitForHost st host' now late)) host = hostLock st host"
    and "hostLock st' host' = hostLock st host' \<Longrightarrow>
         snd (politeWaitForHost st' host' now late) = snd (politeWaitForHost st host' now late)"
  using assms by (simp_all add: politeWaitForHost_def last_request_def Let_def)

text \<open>
  C9. The claim: two successive completions of \<open>waitForHost(h)\<close> are never less than
  two seconds apart, and calls for different hosts do not delay each other. The code
  writes the time of a request only after its wait, so two calls that wait at the same
  time both measure from the request before them: after a request at 10000 ms, a call
  at 10500 ms and a call at 10600 ms are both due at 12000 ms and complete together.
\<close>

theorem overlapping_waits_complete_together:
  "map_option completed
     (run idle [Invoke ''example.com'' 10000 0, Invoke ''example.com'' 10500 0,
                Invoke ''example.com'' 10600 0, Resume ''example.com'' 12000,
                Resume ''example.com'' 12000])
   = Some [(''example.com'', 10000), (''example.com'', 12000), (''example.com'', 12000)]"
  by (simp add: idle_def invoke_def resume_def last_request_def gap_def)

section \<open>Properties of the scan\<close>

lemmas extract_eval =
  extractResult_def price_re_def unit_re_def take_digits_def opt_space_def thousands_def
  cents_def isDigit_def isSpace_def StringToNumber_def trim_def unsigned_decimal_def
  exponent_part_def digits_val_def digit_val_def Let_def

lemmas scan_eval =
  scan_def placesNearby_def resolve_latlng_def fetch_geocode_def is_latlng_def coord_part_def
  parse_latlng_def split_def scan_place_def or_else_def example_env_def example_places_def
  example_body_def world0_def

lemma scan_place_made_from: "made_from p (fst (scan_place env p w))"
  by (simp add: scan_place_def Let_def split: prod.splits sum.splits option.splits)

lemma scan_loop_made_from:
  "list_all2 made_from qs acc \<Longrightarrow>
   list_all2 made_from (qs @ ps) (fst (scan_loop env ps acc w))"
proof (induction ps arbitrary: qs acc w)
  case Nil
  then show ?case by simp
next
  case (Cons p ps)
  obtain e w' where e: "scan_place env p w = (e, w')"
    by (cases "scan_place env p w")
  have "made_from p e"
    using scan_place_made_from [of p env w] e by simp
  with Cons.prems have "list_all2 made_from (qs @ [p]) (acc @ [e])"
    by (simp add: list_all2_appendI)
  from Cons.IH [OF this, of w'] show ?case
    using e by simp
qed

text \<open>An entry has an \<open>error\<close> field only when \<open>placeDetails\<close> threw.\<close>

lemma scan_place_no_error:
  "placeDetails env (pl_place_id p) w = (Inr d, w1) \<Longrightarrow>
   error_of (fst (scan_place env p w)) = None"
  by (simp add: scan_place_def Let_def split: prod.splits sum.splits option.splits)

text \<open>
  C2. The claim: when the scrape of one of N candidates fails after its retries, the
  scan still answers N entries, the entry of that candidate carries an \<open>error\<close> field
  and the others are filled as usual. The code keeps the batch and the N entries, but the
  object \<open>{ error: 'scrape failed' }\<close> that it puts into \<open>scraped\<close> is only read for
  \<open>unit\<close>, \<open>price\<close> and \<open>availability\<close>: the entry of the failed candidate is a full
  record with these three undefined and with no \<open>error\<close> field.
\<close>

theorem failed_scrape_leaves_no_error_field:
  "fst (scan (example_env example_places) (example_body ''35.1495,-90.0490'') world0) =
     Json [Competitor \<lparr> name = ''Store A'', address = ''1 Main St'', place_id = ''p1'',
                        website = Some ''https://p1.example'', distance = JNull,
                        unit = JUndefined, price = JUndefined, source = ''website'',
                        availability = JUndefined \<rparr>,
           Competitor \<lparr> name = ''Store B'', address = ''2 Main St'', place_id = ''p2'',
                        website = Some ''https://p2.example'', distance = JNull,
                        unit = JStr ''10x10'', price = JNumber (Some (8999 / 100)),
                        source = ''website'', availability = JUndefined \<rparr>]
   \<and> scrapeSiteForPrice (example_env example_places) ''https://p1.example'' world0
       = (Inl ''Timeout 30000ms exceeded'', world0)
   \<and> error_of (Competitor \<lparr> name = ''Store A'', address = ''1 Main St'', place_id = ''p1'',
                        website = Some ''https://p1.example'', distance = JNull,
                        unit = JUndefined, price = JUndefined, source = ''website'',
                        availability = JUndefined \<rparr>) = None"
  by (simp add: scan_eval extract_eval)

text \<open>
  C7. When the place search answers N candidates, the scan answers a list of
  \<open>min N 20\<close> entries, and the i-th entry is made from the i-th candidate: same name,
  and same identifier (or same address, for an error record).
\<close>

theorem scan_results_follow_places:
  assumes "or_else (scan_address body) None = Some addr"
    and "placesNearby env addr (if truthy (radius body) then radius body else JNumber (Some 10)) w
           = (Inr places, w')"
  shows "\<exists>results w''. scan env body w = (Json results, w'')
           \<and> length results = min (length places) 20
           \<and> (\<forall>i < length results. made_from (places ! i) (results ! i))"
proof -
  obtain results w'' where r: "scan_loop env (take 20 places) [] w' = (results, w'')"
    by (cases "scan_loop env (take 20 places) [] w'")
  have a: "list_all2 made_from (take 20 places) results"
    using scan_loop_made_from [of "[]" "[]" "take 20 places" env w'] r by simp
  then have l: "length results = min (length places) 20"
    by (auto dest: list_all2_lengthD)
  have "\<forall>i < length results. made_from (places ! i) (results ! i)"
  proof (intro allI impI)
    fix i assume i: "i < length results"
    from a i have "made_from (take 20 places ! i) (results ! i)"
      by (rule list_all2_nthD2)
    moreover from i l have "i < 20" by simp
    ultimately show "made_from (places ! i) (results ! i)" by simp
  qed
  moreover have "scan env body w = (Json results, w'')"
    using assms r by (simp add: scan_def)
  ultimately show ?thesis using l by blast
qed

theorem scan_results_follow_places_witness:
  "or_else (scan_address (example_body ''35.1495,-90.0490'')) None = Some ''35.1495,-90.0490''
   \<and> placesNearby (example_env (replicate 25 (hd example_places))) ''35.1495,-90.0490''
        (if truthy (radius (example_body ''35.1495,-90.0490''))
         then radius (example_body ''35.1495,-90.0490'') else JNumber (Some 10)) world0
       = (Inr (replicate 25 (hd example_places)), world0)
   \<and> (\<exists>results w''.
         scan (example_env (replicate 25 (hd example_places)))
              (example_body ''35.1495,-90.0490'') world0 = (Json results, w'')
         \<and> length results = 20
         \<and> (\<forall>i < length results. made_from (hd example_places) (results ! i)))"
proof -
  have a: "or_else (scan_address (example_body ''35.1495,-90.0490'')) None
             = Some ''35.1495,-90.0490''"
    by (simp add: example_body_def or_else_def)
  have b: "placesNearby (example_env (replicate 25 (hd example_places))) ''35.1495,-90.0490''
        (if truthy (radius (example_body ''35.1495,-90.0490''))
         then radius (example_body ''35.1495,-90.0490'') else JNumber (Some 10)) world0
       = (Inr (replicate 25 (hd example_places)), world0)"
    by (simp add: placesNearby_def resolve_latlng_def is_latlng_def coord_part_def isDigit_def
        example_env_def)
  from scan_results_follow_places [OF a b] obtain results w'' where
    r: "scan (example_env (replicate 25 (hd example_places)))
              (example_body ''35.1495,-90.0490'') world0 = (Json results, w'')"
      "length results = min (length (replicate 25 (hd example_places))) 20"
      "\<forall>i < length results. made_from (replicate 25 (hd example_places) ! i) (results ! i)"
    by blast
  from r(2) have l: "length results = 20" by simp
  with r(3) have "\<forall>i < length results. made_from (hd example_places) (results ! i)"
    by simp
  with a b r(1) l show ?thesis by blast
qed

section \<open>Properties of \<open>median\<close> on the store\<close>

text \<open>\<open>sort\<close> does change the array it is applied to.\<close>

lemma Array_sort_in_place:
  "snd (Array_sort [[3, 1, 2]] 0 (\<lambda>a b. a - b)) = [[1, 2, 3]]"
  by (simp add: Array_sort_def sort_by_def)

text \<open>
  C10. \<open>median\<close> leaves the array of its caller as it was: for a reference \<open>arr\<close> into
  the store, every array that was in the store before the call, the one at \<open>arr\<close> among
  them, has the same elements in the same order after it; and the answer is the median
  of that array.
\<close>

theorem median_store_keeps_arrays:
  assumes "arr < length h"
  shows "take (length h) (snd (median_store h arr)) = h
         \<and> snd (median_store h arr) ! arr = h ! arr
         \<and> fst (median_store h arr) = median (h ! arr)"
  using assms
  by (simp add: median_store_def Array_slice_def Array_sort_def median_def Let_def nth_append)

theorem median_store_keeps_arrays_witness:
  "(0 :: nat) < length [[3, 1, 2 :: rat], [7]]
   \<and> snd (median_store [[3, 1, 2], [7]] 0) ! 0 = [3, 1, 2]
   \<and> take 2 (snd (median_store [[3, 1, 2], [7]] 0)) = [[3, 1, 2], [7]]
   \<and> fst (median_store [[3, 1, 2], [7]] 0) = Some 2"
proof -
  have a: "(0 :: nat) < length [[3, 1, 2 :: rat], [7]]" by simp
  have "median [3, 1, 2] = Some 2"
    by (simp add: median_def sort_by_def)
  with median_store_keeps_arrays [OF a] a show ?thesis
    by (simp add: numeral_2_eq_2)
qed


section \<open>Properties of location resolution\<close>

lemma digits_all: "digits a \<Longrightarrow> \<forall>c \<in> set a. isDigit c"
  by (simp add: digits_def list_all_iff)

lemma not_digit_chars [simp]:
  "\<not> isDigit CHR ''.''" "\<not> isDigit CHR '',''" "\<not> isDigit CHR ''-''" "\<not> isDigit CHR ''$''"
  "\<not> isDigit CHR ''+''"
  by (simp_all add: isDigit_def)

lemma digit_not_space: "isDigit c \<Longrightarrow> \<not> isSpace c"
  by (auto simp: isDigit_def isSpace_def)

lemma takeWhile_digits_stop:
  "digits a \<Longrightarrow> r = [] \<or> \<not> isDigit (hd r) \<Longrightarrow> takeWhile isDigit (a @ r) = a"
  by (cases r) (auto simp: digits_all)

lemma dropWhile_digits_stop:
  "digits a \<Longrightarrow> r = [] \<or> \<not> isDigit (hd r) \<Longrightarrow> dropWhile isDigit (a @ r) = r"
  by (cases r) (auto simp: digits_all)

lemma digits_takeWhile: "takeWhile isDigit s \<noteq> [] \<Longrightarrow> digits (takeWhile isDigit s)"
  by (auto simp: digits_def list_all_iff dest: set_takeWhileD)



lemma take1_split: "take 1 r = [c] \<Longrightarrow> r = c # drop 1 r"
  by (cases r) auto

lemma coord_part_sound:
  assumes "coord_part s = Some r"
  shows "\<exists>x. signed_decimal x \<and> s = x @ r \<and> (r = [] \<or> \<not> isDigit (hd r))"
proof -
  define m where "m = (if take 1 s = ''-'' then ''-'' else [])"
  define r0 where "r0 = (if take 1 s = ''-'' then drop 1 s else s)"
  define a where "a = takeWhile isDigit r0"
  define r1 where "r1 = dropWhile isDigit r0"
  define b where "b = takeWhile isDigit (drop 1 r1)"
  have u: "coord_part s =
      (if a = [] \<or> take 1 r1 \<noteq> ''.'' then None
       else if b = [] then None else Some (dropWhile isDigit (drop 1 r1)))"
    unfolding coord_part_def Let_def a_def r1_def b_def r0_def by (rule refl)
  have c1: "a \<noteq> []" and c2: "take 1 r1 = ''.''"
    using assms unfolding u by (simp_all split: if_splits)
  have c3: "b \<noteq> []" and c4: "r = dropWhile isDigit (drop 1 r1)"
    using assms c1 c2 unfolding u by (simp_all split: if_splits)
  have s: "s = m @ r0"
    unfolding m_def r0_def using take1_split [of s "CHR ''-''"] by simp
  have r0: "r0 = a @ r1" by (simp add: a_def r1_def)
  have r1: "r1 = CHR ''.'' # drop 1 r1" using c2 by (rule take1_split)
  have d: "drop 1 r1 = b @ r" by (simp add: b_def c4)
  have "s = m @ a @ CHR ''.'' # b @ r"
    using s r0 r1 d by simp
  then have "s = (m @ a @ ''.'' @ b) @ r" by simp
  moreover have "digits a" unfolding a_def using c1 [unfolded a_def] by (rule digits_takeWhile)
  moreover have "digits b" unfolding b_def using c3 [unfolded b_def] by (rule digits_takeWhile)
  moreover have "m = [] \<or> m = ''-''" by (simp add: m_def)
  moreover have "r = [] \<or> \<not> isDigit (hd r)"
    unfolding c4 using hd_dropWhile [of isDigit "drop 1 r1"] by blast
  ultimately show ?thesis unfolding signed_decimal_def by blast
qed


lemma coord_part_complete:
  assumes "signed_decimal x" and "r = [] \<or> \<not> isDigit (hd r)"
  shows "coord_part (x @ r) = Some r"
proof -
  from assms(1) obtain m a b where x: "x = m @ a @ ''.'' @ b" and m: "m = [] \<or> m = ''-''"
    and a: "digits a" and b: "digits b"
    unfolding signed_decimal_def by blast
  obtain d a' where a': "a = d # a'" "isDigit d"
    using a by (cases a) (simp_all add: digits_def)
  have bn: "b \<noteq> []" using b by (simp add: digits_def)
  have t1: "takeWhile isDigit (a @ CHR ''.'' # b @ r) = a"
    using takeWhile_digits_stop [OF a, of "CHR ''.'' # b @ r"] by simp
  have d1: "dropWhile isDigit (a @ CHR ''.'' # b @ r) = CHR ''.'' # b @ r"
    using dropWhile_digits_stop [OF a, of "CHR ''.'' # b @ r"] by simp
  have t2: "takeWhile isDigit (b @ r) = b"
    using takeWhile_digits_stop [OF b assms(2)] .
  have d2: "dropWhile isDigit (b @ r) = r"
    using dropWhile_digits_stop [OF b assms(2)] .
  have dm: "d \<noteq> CHR ''-''" using a'(2) by auto
  have e: "coord_part (a @ CHR ''.'' # b @ r) = Some r"
    unfolding coord_part_def Let_def using dm bn a'(1) t1 d1 t2 d2 by simp
  have f: "coord_part (CHR ''-'' # a @ CHR ''.'' # b @ r) = Some r"
    unfolding coord_part_def Let_def using bn a'(1) t1 d1 t2 d2 by simp
  from m show ?thesis
  proof
    assume "m = []"
    then show ?thesis using e by (simp add: x)
  next
    assume "m = ''-''"
    then show ?thesis using f by (simp add: x)
  qed
qed

lemma is_latlng_iff: "is_latlng s \<longleftrightarrow> latlng_text s"
proof
  assume "is_latlng s"
  then obtain r where r: "coord_part s = Some r" "take 1 r = '',''" "coord_part (drop 1 r) = Some []"
    unfolding is_latlng_def by (cases "coord_part s") simp_all
  from coord_part_sound [OF r(1)] obtain x where x: "signed_decimal x" "s = x @ r" by blast
  from coord_part_sound [OF r(3)] have y: "signed_decimal (drop 1 r)" by simp
  have "r = CHR '','' # drop 1 r" using r(2) by (rule take1_split)
  with x(2) have "s = x @ '','' @ drop 1 r" by simp
  with x(1) y show "latlng_text s" unfolding latlng_text_def by blast
next
  assume "latlng_text s"
  then obtain x y where s: "s = x @ '','' @ y" and x: "signed_decimal x" and y: "signed_decimal y"
    unfolding latlng_text_def by blast
  have "coord_part (x @ CHR '','' # y) = Some (CHR '','' # y)"
    using coord_part_complete [OF x, of "CHR '','' # y"] by simp
  moreover have "coord_part y = Some []"
    using coord_part_complete [OF y, of "[]"] by simp
  ultimately show "is_latlng s" by (simp add: is_latlng_def s)
qed


lemma trim_id:
  assumes "s \<noteq> []" and "\<not> isSpace (hd s)" and "\<not> isSpace (last s)"
  shows "trim s = s"
proof -
  have "dropWhile isSpace s = s"
    using assms(2) by (simp add: dropWhile_eq_self_iff)
  moreover have "dropWhile isSpace (rev s) = rev s"
    using assms(1,3) by (simp add: dropWhile_eq_self_iff hd_rev)
  ultimately show ?thesis by (simp add: trim_def)
qed

lemma unsigned_decimal_point:
  assumes "digits a" and "digits b"
  shows "unsigned_decimal (a @ CHR ''.'' # b)
           = Some (of_nat (digits_val a) + of_nat (digits_val b) / 10 ^ length b)"
proof -
  have t1: "takeWhile isDigit (a @ CHR ''.'' # b) = a"
    using takeWhile_digits_stop [OF assms(1), of "CHR ''.'' # b"] by simp
  have d1: "dropWhile isDigit (a @ CHR ''.'' # b) = CHR ''.'' # b"
    using dropWhile_digits_stop [OF assms(1), of "CHR ''.'' # b"] by simp
  have t2: "takeWhile isDigit b = b"
    using takeWhile_digits_stop [OF assms(2), of "[]"] by simp
  have d2: "dropWhile isDigit b = []"
    using dropWhile_digits_stop [OF assms(2), of "[]"] by simp
  have an: "a \<noteq> []" using assms(1) by (simp add: digits_def)
  show ?thesis
    unfolding unsigned_decimal_def Let_def t1 d1 using an
    by (simp add: t2 d2 exponent_part_def)
qed

lemma StringToNumber_decimal_value:
  assumes m: "m = [] \<or> m = ''-''" and a: "digits a" and b: "digits b"
  shows "StringToNumber (m @ a @ ''.'' @ b) = Some (decimal_value m a b)"
proof -
  define x where "x = m @ a @ ''.'' @ b"
  define v where "v = (of_nat (digits_val a) + of_nat (digits_val b) / 10 ^ length b :: rat)"
  obtain d a' where a': "a = d # a'" "isDigit d"
    using a by (cases a) (simp_all add: digits_def)
  have bl: "b \<noteq> []" "isDigit (last b)"
    using b by (auto simp: digits_def list_all_iff)
  have xl: "x \<noteq> []" "last x = last b" using bl(1) by (simp_all add: x_def)
  have hx: "\<not> isSpace (hd x)"
    using m a' by (auto simp: x_def isSpace_def dest: digit_not_space)
  have tr: "trim x = x"
    using xl(1) hx by (rule trim_id) (simp add: xl(2) bl(2) digit_not_space)
  have dm: "d \<noteq> CHR ''-''" "d \<noteq> CHR ''+''" using a'(2) by auto
  have u: "unsigned_decimal (a @ CHR ''.'' # b) = Some v"
    unfolding v_def by (rule unsigned_decimal_point [OF a b])
  then have u': "unsigned_decimal (d # a' @ CHR ''.'' # b) = Some v"
    by (simp add: a'(1))
  from m have "StringToNumber x = Some (decimal_value m a b)"
  proof
    assume e: "m = []"
    then have "x = d # a' @ CHR ''.'' # b" by (simp add: x_def a')
    then have "StringToNumber x = Some v"
      unfolding StringToNumber_def tr using dm u' by simp
    then show ?thesis by (simp add: v_def decimal_value_def e)
  next
    assume e: "m = ''-''"
    then have "x = CHR ''-'' # a @ CHR ''.'' # b" by (simp add: x_def)
    then have "StringToNumber x = Some (- v)"
      unfolding StringToNumber_def tr using u by simp
    then show ?thesis by (simp add: v_def decimal_value_def e)
  qed
  then show ?thesis by (simp add: x_def)
qed

lemma StringToNumber_signed_decimal:
  assumes "signed_decimal x"
  shows "\<exists>q. StringToNumber x = Some q"
proof -
  from assms obtain m a b where "x = m @ a @ ''.'' @ b" "m = [] \<or> m = ''-''"
    "digits a" "digits b"
    unfolding signed_decimal_def by blast
  then show ?thesis using StringToNumber_decimal_value [of m a b] by simp
qed

lemma split_acc_no_sep:
  "c \<notin> set x \<Longrightarrow> split_acc c acc (x @ c # y) = (rev acc @ x) # split_acc c [] y"
  by (induction x arbitrary: acc) auto

lemma split_acc_last: "c \<notin> set y \<Longrightarrow> split_acc c acc y = [rev acc @ y]"
  by (induction y arbitrary: acc) auto

lemma digits_no_comma: "digits a \<Longrightarrow> CHR '','' \<notin> set a"
  using digits_all [of a] not_digit_chars(2) by blast

lemma signed_decimal_no_comma: "signed_decimal x \<Longrightarrow> CHR '','' \<notin> set x"
  unfolding signed_decimal_def by (auto dest: digits_no_comma)

lemma parse_latlng_numbers:
  assumes "is_latlng s"
  shows "\<exists>la ln. parse_latlng s = (Some la, Some ln)"
proof -
  from assms have "latlng_text s" by (simp add: is_latlng_iff)
  then obtain x y where s: "s = x @ '','' @ y" and x: "signed_decimal x" and y: "signed_decimal y"
    unfolding latlng_text_def by blast
  have "split s CHR '','' = [x, y]"
    using signed_decimal_no_comma [OF x] signed_decimal_no_comma [OF y]
    by (simp add: split_def s split_acc_no_sep split_acc_last)
  moreover from StringToNumber_signed_decimal [OF x] obtain la where "StringToNumber x = Some la" ..
  moreover from StringToNumber_signed_decimal [OF y] obtain ln where "StringToNumber y = Some ln" ..
  ultimately show ?thesis by (simp add: parse_latlng_def)
qed


lemma parse_latlng_value:
  assumes "m1 = [] \<or> m1 = ''-''" and "digits a" and "digits b"
    and "m2 = [] \<or> m2 = ''-''" and "digits c" and "digits d"
  shows "parse_latlng (m1 @ a @ ''.'' @ b @ '','' @ m2 @ c @ ''.'' @ d)
           = (Some (decimal_value m1 a b), Some (decimal_value m2 c d))"
proof -
  define x where "x = m1 @ a @ ''.'' @ b"
  define y where "y = m2 @ c @ ''.'' @ d"
  have sx: "signed_decimal x" and sy: "signed_decimal y"
    unfolding signed_decimal_def x_def y_def using assms by blast+
  have "split (x @ '','' @ y) CHR '','' = [x, y]"
    using signed_decimal_no_comma [OF sx] signed_decimal_no_comma [OF sy]
    by (simp add: split_def split_acc_no_sep split_acc_last)
  moreover have "StringToNumber x = Some (decimal_value m1 a b)"
    unfolding x_def using assms(1-3) by (rule StringToNumber_decimal_value)
  moreover have "StringToNumber y = Some (decimal_value m2 c d)"
    unfolding y_def using assms(4-6) by (rule StringToNumber_decimal_value)
  ultimately have "parse_latlng (x @ '','' @ y)
                     = (Some (decimal_value m1 a b), Some (decimal_value m2 c d))"
    by (simp add: parse_latlng_def)
  then show ?thesis by (simp add: x_def y_def)
qed

lemma resolve_latlng_value:
  assumes "addr = m1 @ a @ ''.'' @ b @ '','' @ m2 @ c @ ''.'' @ d"
    and "m1 = [] \<or> m1 = ''-''" and "digits a" and "digits b"
    and "m2 = [] \<or> m2 = ''-''" and "digits c" and "digits d"
  shows "resolve_latlng provider addr w
           = (Inr (Some (decimal_value m1 a b), Some (decimal_value m2 c d)), w)"
proof -
  have "signed_decimal (m1 @ a @ ''.'' @ b)" and "signed_decimal (m2 @ c @ ''.'' @ d)"
    unfolding signed_decimal_def using assms(2-7) by blast+
  then have "latlng_text addr"
    unfolding latlng_text_def using assms(1) by (metis append.assoc)
  then have "is_latlng addr" by (simp add: is_latlng_iff)
  moreover have "parse_latlng addr
                   = (Some (decimal_value m1 a b), Some (decimal_value m2 c d))"
    unfolding assms(1) using assms(2-7) by (rule parse_latlng_value)
  ultimately show ?thesis by (simp add: resolve_latlng_def)
qed

text \<open>Every text of the pattern has such a reading, and the coordinate is its value.\<close>

lemma resolve_latlng_reads_text:
  assumes "is_latlng addr"
  shows "\<exists>m1 a b m2 c d.
           addr = m1 @ a @ ''.'' @ b @ '','' @ m2 @ c @ ''.'' @ d
           \<and> (m1 = [] \<or> m1 = ''-'') \<and> digits a \<and> digits b
           \<and> (m2 = [] \<or> m2 = ''-'') \<and> digits c \<and> digits d
           \<and> resolve_latlng provider addr w
               = (Inr (Some (decimal_value m1 a b), Some (decimal_value m2 c d)), w)"
proof -
  from assms have "latlng_text addr" by (simp add: is_latlng_iff)
  then obtain x y where s: "addr = x @ '','' @ y" and "signed_decimal x" and "signed_decimal y"
    unfolding latlng_text_def by blast
  then obtain m1 a b m2 c d where
    x: "x = m1 @ a @ ''.'' @ b" "m1 = [] \<or> m1 = ''-''" "digits a" "digits b"
    and y: "y = m2 @ c @ ''.'' @ d" "m2 = [] \<or> m2 = ''-''" "digits c" "digits d"
    unfolding signed_decimal_def by blast
  have e: "addr = m1 @ a @ ''.'' @ b @ '','' @ m2 @ c @ ''.'' @ d"
    by (simp add: s x(1) y(1))
  from resolve_latlng_value [OF e x(2-4) y(2-4)] e x(2-4) y(2-4) show ?thesis by blast
qed

text \<open>The value of a run of digits is its decimal reading.\<close>

lemma digit_val_chars: "map digit_val ''0123456789'' = [0, 1, 2, 3, 4, 5, 6, 7, 8, 9]"
  by (simp add: digit_val_def)

lemma digits_val_Nil: "digits_val [] = 0"
  by (simp add: digits_val_def)

lemma digits_val_snoc: "digits_val (ds @ [c]) = 10 * digits_val ds + digit_val c"
  by (simp add: digits_val_def)

lemma resolve_latlng_direct:
  assumes "is_latlng addr"
  shows "\<exists>la ln. resolve_latlng provider addr w = (Inr (Some la, Some ln), w)"
  using parse_latlng_numbers [OF assms] assms by (auto simp: resolve_latlng_def)

lemma resolve_latlng_one_request:
  assumes "\<not> is_latlng addr"
  shows "requests (snd (resolve_latlng provider addr w)) = requests w @ [Geocode addr]"
  using assms
  by (simp add: resolve_latlng_def fetch_geocode_def
      split: prod.splits sum.splits option.splits list.splits)

lemma resolve_latlng_answer:
  assumes "\<not> is_latlng addr" and "provider addr (outside w) = (Inr resp, x)"
  shows "fst (resolve_latlng provider addr w) =
           (case geo_results resp of
              None \<Rightarrow> Inl ''geocode failed''
            | Some [] \<Rightarrow> Inl ''geocode failed''
            | Some (loc # rest) \<Rightarrow> Inr (Some (lat loc), Some (lng loc)))"
  using assms
  by (simp add: resolve_latlng_def fetch_geocode_def split: option.splits list.splits)

lemma scan_resolution_error:
  assumes "or_else (scan_address body) None = Some addr"
    and "fst (resolve_latlng (geocode env) addr w) = Inl msg"
  shows "fst (scan env body w) = Status 500 msg"
proof -
  obtain w' where "resolve_latlng (geocode env) addr w = (Inl msg, w')"
    using assms(2) by (cases "resolve_latlng (geocode env) addr w") simp
  then show ?thesis
    using assms(1) by (simp add: scan_def placesNearby_def)
qed

text \<open>
  C8. The location step takes the direct branch exactly for the texts of the strict
  pattern (two numbers separated by a comma, each an optional minus sign, digits, a point
  and digits). On such a text it answers the coordinate that the text spells (for each
  of the two numbers, its digits before the point plus its digits after the point as a
  decimal fraction, negated after a minus sign; \<open>35.1495,-90.0490\<close> is 35.1495 and
  -90.049) and leaves the outside world untouched: no request is sent. On any other text
  it sends exactly one geocoding request; when the service answers, the step fails with
  \<open>geocode failed\<close> exactly when the answer has no result (the list is absent or empty),
  and otherwise takes the location of the first result. A failure of the step makes the
  whole scan answer status 500 with the message, and no list.
\<close>

theorem location_resolution:
  "(is_latlng addr \<longleftrightarrow> latlng_text addr)
   \<and> (is_latlng addr \<longrightarrow>
        (\<exists>la ln. resolve_latlng provider addr w = (Inr (Some la, Some ln), w)))
   \<and> (is_latlng addr \<longrightarrow>
        (\<exists>m1 a b m2 c d.
           addr = m1 @ a @ ''.'' @ b @ '','' @ m2 @ c @ ''.'' @ d
           \<and> (m1 = [] \<or> m1 = ''-'') \<and> digits a \<and> digits b
           \<and> (m2 = [] \<or> m2 = ''-'') \<and> digits c \<and> digits d
           \<and> resolve_latlng provider addr w
               = (Inr (Some (decimal_value m1 a b), Some (decimal_value m2 c d)), w)))
   \<and> (\<forall>m1 a b m2 c d.
         addr = m1 @ a @ ''.'' @ b @ '','' @ m2 @ c @ ''.'' @ d
         \<and> (m1 = [] \<or> m1 = ''-'') \<and> digits a \<and> digits b
         \<and> (m2 = [] \<or> m2 = ''-'') \<and> digits c \<and> digits d
         \<longrightarrow> resolve_latlng provider addr w
               = (Inr (Some (decimal_value m1 a b), Some (decimal_value m2 c d)), w))
   \<and> resolve_latlng provider ''35.1495,-90.0490'' w
       = (Inr (Some (351495 / 10000), Some (- (900490 / 10000))), w)
   \<and> (\<not> is_latlng addr \<longrightarrow>
        requests (snd (resolve_latlng provider addr w)) = requests w @ [Geocode addr]
        \<and> (\<forall>resp x. provider addr (outside w) = (Inr resp, x) \<longrightarrow>
              (fst (resolve_latlng provider addr w) = Inl ''geocode failed''
                 \<longleftrightarrow> geo_results resp = None \<or> geo_results resp = Some [])
              \<and> (\<forall>loc rest. geo_results resp = Some (loc # rest) \<longrightarrow>
                    fst (resolve_latlng provider addr w) = Inr (Some (lat loc), Some (lng loc)))))
   \<and> (\<forall>env body msg.
         or_else (scan_address body) None = Some addr
         \<and> fst (resolve_latlng (geocode env) addr w) = Inl msg
         \<longrightarrow> fst (scan env body w) = Status 500 msg)"
proof (intro conjI impI allI)
  show "is_latlng addr \<longleftrightarrow> latlng_text addr" by (rule is_latlng_iff)
next
  assume "is_latlng addr"
  then show "\<exists>la ln. resolve_latlng provider addr w = (Inr (Some la, Some ln), w)"
    by (rule resolve_latlng_direct)
next
  assume "is_latlng addr"
  then show "\<exists>m1 a b m2 c d.
           addr = m1 @ a @ ''.'' @ b @ '','' @ m2 @ c @ ''.'' @ d
           \<and> (m1 = [] \<or> m1 = ''-'') \<and> digits a \<and> digits b
           \<and> (m2 = [] \<or> m2 = ''-'') \<and> digits c \<and> digits d
           \<and> resolve_latlng provider addr w
               = (Inr (Some (decimal_value m1 a b), Some (decimal_value m2 c d)), w)"
    by (rule resolve_latlng_reads_text)
next
  fix m1 a b m2 c d
  assume "addr = m1 @ a @ ''.'' @ b @ '','' @ m2 @ c @ ''.'' @ d
         \<and> (m1 = [] \<or> m1 = ''-'') \<and> digits a \<and> digits b
         \<and> (m2 = [] \<or> m2 = ''-'') \<and> digits c \<and> digits d"
  then show "resolve_latlng provider addr w
               = (Inr (Some (decimal_value m1 a b), Some (decimal_value m2 c d)), w)"
    using resolve_latlng_value [of addr m1 a b m2 c d provider w] by blast
next
  have "digits ''35''" "digits ''1495''" "digits ''90''" "digits ''0490''"
    by (simp_all add: digits_def isDigit_def)
  from resolve_latlng_value [of "''35.1495,-90.0490''" "[]" "''35''" "''1495''" "''-''"
      "''90''" "''0490''" provider w, OF _ _ this(1,2) _ this(3,4)]
  show "resolve_latlng provider ''35.1495,-90.0490'' w
       = (Inr (Some (351495 / 10000), Some (- (900490 / 10000))), w)"
    by (simp add: decimal_value_def digits_val_def digit_val_def)
next
  assume "\<not> is_latlng addr"
  then show "requests (snd (resolve_latlng provider addr w)) = requests w @ [Geocode addr]"
    by (rule resolve_latlng_one_request)
next
  fix resp x
  assume "\<not> is_latlng addr" and "provider addr (outside w) = (Inr resp, x)"
  with resolve_latlng_answer [of addr provider w resp x]
  show "fst (resolve_latlng provider addr w) = Inl ''geocode failed''
          \<longleftrightarrow> geo_results resp = None \<or> geo_results resp = Some []"
    by (simp split: option.splits list.splits)
next
  fix resp x loc rest
  assume "\<not> is_latlng addr" and "provider addr (outside w) = (Inr resp, x)"
    and "geo_results resp = Some (loc # rest)"
  with resolve_latlng_answer [of addr provider w resp x]
  show "fst (resolve_latlng provider addr w) = Inr (Some (lat loc), Some (lng loc))"
    by simp
next
  fix env :: "'a env" and body :: scan_body and msg
  assume "or_else (scan_address body) None = Some addr
            \<and> fst (resolve_latlng (geocode env) addr w) = Inl msg"
  then show "fst (scan env body w) = Status 500 msg"
    using scan_resolution_error by blast
qed

theorem location_resolution_witness:
  "is_latlng ''35.1495,-90.0490''
   \<and> (\<exists>la ln. resolve_latlng (geocode (example_env example_places)) ''35.1495,-90.0490'' world0
                 = (Inr (Some la, Some ln), world0))
   \<and> \<not> is_latlng ''Memphis''
   \<and> requests (snd (resolve_latlng (geocode (example_env example_places)) ''Memphis'' world0))
       = [Geocode ''Memphis'']
   \<and> geocode (example_env example_places) ''Memphis'' (outside world0)
       = (Inr \<lparr> geo_results = Some [] \<rparr>, ())
   \<and> fst (resolve_latlng (geocode (example_env example_places)) ''Memphis'' world0)
       = Inl ''geocode failed''
   \<and> or_else (scan_address (example_body ''Memphis'')) None = Some ''Memphis''
   \<and> fst (scan (example_env example_places) (example_body ''Memphis'') world0)
       = Status 500 ''geocode failed''
   \<and> resolve_latlng (geocode (example_env example_places)) ''35.1495,-90.0490'' world0
       = (Inr (Some (decimal_value [] ''35'' ''1495''),
               Some (decimal_value ''-'' ''90'' ''0490'')), world0)
   \<and> decimal_value [] ''35'' ''1495'' = 70299 / 2000
   \<and> decimal_value ''-'' ''90'' ''0490'' = - (90049 / 1000)"
proof -
  note t = location_resolution
    [of "''35.1495,-90.0490''" "geocode (example_env example_places)" world0]
  note u = location_resolution [of "''Memphis''" "geocode (example_env example_places)" world0]
  have a: "is_latlng ''35.1495,-90.0490''"
    by (simp add: is_latlng_def coord_part_def isDigit_def)
  have b: "\<not> is_latlng ''Memphis''"
    by (simp add: is_latlng_def coord_part_def isDigit_def)
  have c: "geocode (example_env example_places) ''Memphis'' (outside world0)
             = (Inr \<lparr> geo_results = Some [] \<rparr>, ())"
    by (simp add: example_env_def)
  have d: "or_else (scan_address (example_body ''Memphis'')) None = Some ''Memphis''"
    by (simp add: example_body_def or_else_def)
  from t a have 1: "\<exists>la ln. resolve_latlng (geocode (example_env example_places))
                      ''35.1495,-90.0490'' world0 = (Inr (Some la, Some ln), world0)"
    by blast
  from u b have 2: "requests (snd (resolve_latlng (geocode (example_env example_places))
                      ''Memphis'' world0)) = requests world0 @ [Geocode ''Memphis'']"
    by blast
  from u b c have 3: "fst (resolve_latlng (geocode (example_env example_places)) ''Memphis'' world0)
                        = Inl ''geocode failed''"
    by simp
  from u d 3 have 4: "fst (scan (example_env example_places) (example_body ''Memphis'') world0)
                        = Status 500 ''geocode failed''"
    by blast
  from 2 have 5: "requests (snd (resolve_latlng (geocode (example_env example_places))
                      ''Memphis'' world0)) = [Geocode ''Memphis'']"
    by (simp add: world0_def)
  note v = t [THEN conjunct2, THEN conjunct2, THEN conjunct2, THEN conjunct1, rule_format,
      of "[]" "''35''" "''1495''" "''-''" "''90''" "''0490''"]
  have 6: "resolve_latlng (geocode (example_env example_places)) ''35.1495,-90.0490'' world0
             = (Inr (Some (decimal_value [] ''35'' ''1495''),
                     Some (decimal_value ''-'' ''90'' ''0490'')), world0)"
    by (rule v) (simp add: digits_def isDigit_def)
  have 7: "decimal_value [] ''35'' ''1495'' = 70299 / 2000"
    "decimal_value ''-'' ''90'' ''0490'' = - (90049 / 1000)"
    by (simp_all add: decimal_value_def digits_val_def digit_val_def)
  from a b c d 1 3 4 5 6 7 show ?thesis by blast
qed


section \<open>Properties of the extraction\<close>

lemma take_digits_take: "take_digits n s = take (length (take_digits n s)) s"
proof -
  have "take_digits n s = take (length (take_digits n s)) (take n s)"
    unfolding take_digits_def by (rule takeWhile_eq_take)
  moreover have "length (take_digits n s) \<le> n"
    unfolding take_digits_def by (metis length_takeWhile_le length_take min.cobounded2 order_trans)
  ultimately show ?thesis by (simp add: min_def)
qed

lemma take_digits_length: "length (take_digits n s) \<le> n"
  unfolding take_digits_def by (metis length_takeWhile_le length_take min.cobounded2 order_trans)

lemma take_digits_split: "take_digits n s @ drop (length (take_digits n s)) s = s"
  using take_digits_take [of n s] by (metis append_take_drop_id)

lemma take_digits_digits: "take_digits n s \<noteq> [] \<Longrightarrow> digits (take_digits n s)"
  unfolding take_digits_def digits_def by (auto simp: list_all_iff dest: set_takeWhileD)

lemma take_digits_append:
  assumes "list_all isDigit ds" and "length ds \<le> n"
  shows "take_digits n (ds @ r) = ds @ take_digits (n - length ds) r"
  using assms unfolding take_digits_def by (simp add: list_all_iff)

lemma take_digits_nondigit: "\<not> isDigit c \<Longrightarrow> take_digits n (c # t) = []"
  unfolding take_digits_def by (cases n) simp_all

lemma take_digits_Nil [simp]: "take_digits n [] = []"
  unfolding take_digits_def by simp

lemma take_digits_0 [simp]: "take_digits 0 s = []"
  unfolding take_digits_def by simp

lemma take_drop_length: "take n t @ drop (length (take n t)) t = t"
  by (cases "n \<le> length t") (simp_all add: min_def)

lemma take_digits_full:
  assumes "length (take_digits n s) = n"
  shows "take n s = take_digits n s"
  using take_digits_take [of n s] assms by simp

lemma opt_space_split: "opt_space t @ drop (length (opt_space t)) t = t"
  unfolding opt_space_def by (cases t) simp_all

lemma opt_space_ok: "space_opt (opt_space t)"
  unfolding opt_space_def space_opt_def by (cases t) simp_all

lemma opt_space_eq:
  assumes "space_opt sp" and "t = [] \<or> \<not> isSpace (hd t)"
  shows "opt_space (sp @ t) = sp"
  using assms unfolding opt_space_def space_opt_def by (cases t) auto

lemma thousands_split: "thousands t @ drop (length (thousands t)) t = t"
  unfolding thousands_def using take_drop_length [of 4 t] by (simp del: length_take)

lemma thousands_ok:
  "thousands t = [] \<or> (\<exists>u. thousands t = CHR '','' # u \<and> digits u \<and> length u = 3)"
proof (cases "take 1 t = '','' \<and> length (take_digits 3 (drop 1 t)) = 3")
  case True
  then obtain t' where t: "t = CHR '','' # t'" by (cases t) auto
  from True have l: "length (take_digits 3 t') = 3" by (simp add: t)
  have "thousands t = take 4 t"
    unfolding thousands_def using True by (rule if_P)
  also have "\<dots> = CHR '','' # take 3 t'" by (simp add: t)
  also have "take 3 t' = take_digits 3 t'"
    using l by (rule take_digits_full)
  finally have "thousands t = CHR '','' # take_digits 3 t'" .
  moreover have "digits (take_digits 3 t')"
    using l by (intro take_digits_digits) auto
  ultimately show ?thesis using l by blast
next
  case False
  have "thousands t = []"
    unfolding thousands_def using False by (rule if_not_P)
  then show ?thesis ..
qed

lemma thousands_eq:
  assumes "digits u" and "length u = 3"
  shows "thousands (CHR '','' # u @ r) = CHR '','' # u"
proof -
  have "take_digits 3 (u @ r) = u"
    using take_digits_append [of u 3 r] assms by (simp add: digits_def)
  then show ?thesis using assms(2) by (simp add: thousands_def)
qed

lemma cents_split: "cents t @ drop (length (cents t)) t = t"
proof (cases "take 1 t = ''.'' \<and> take_digits 2 (drop 1 t) \<noteq> []")
  case True
  then obtain t' where t: "t = CHR ''.'' # t'" by (cases t) auto
  have "cents t = CHR ''.'' # take_digits 2 (drop 1 t)"
    unfolding cents_def using True by (rule if_P)
  then have "cents t = CHR ''.'' # take_digits 2 t'" by (simp add: t)
  then show ?thesis by (simp add: t take_digits_split)
next
  case False
  have "cents t = []"
    unfolding cents_def using False by (rule if_not_P)
  then show ?thesis by simp
qed

lemma cents_ok:
  "cents t = [] \<or> (\<exists>u. cents t = CHR ''.'' # u \<and> digits u \<and> length u \<le> 2)"
  unfolding cents_def using take_digits_digits [of 2 "drop 1 t"] take_digits_length [of 2 "drop 1 t"]
  by simp

lemma cents_ext:
  assumes "digits u" and "length u \<le> 2"
  shows "cents (CHR ''.'' # u @ r) = CHR ''.'' # u @ take_digits (2 - length u) r"
proof -
  have "take_digits 2 (u @ r) = u @ take_digits (2 - length u) r"
    using take_digits_append [of u 2 r] assms by (simp add: digits_def)
  moreover have "u \<noteq> []" using assms(1) by (simp add: digits_def)
  ultimately show ?thesis by (simp add: cents_def)
qed


lemma price_re_sound:
  assumes "price_re s = Some (w, g)"
  shows "dollar_amount w g \<and> prefix w s"
proof -
  define sp where "sp = opt_space (drop 1 s)"
  define r1 where "r1 = drop (1 + length sp) s"
  define ds where "ds = take_digits 3 r1"
  define r2 where "r2 = drop (length ds) r1"
  define th where "th = thousands r2"
  define r3 where "r3 = drop (length th) r2"
  define ce where "ce = cents r3"
  have u: "price_re s =
      (if take 1 s \<noteq> ''$'' then None
       else if ds = [] then None
       else Some (''$'' @ sp @ ds @ th @ ce, ds @ th @ ce))"
    unfolding price_re_def Let_def sp_def r1_def ds_def r2_def th_def r3_def ce_def
    by (rule refl)
  have c1: "take 1 s = ''$''"
    using assms unfolding u by (simp split: if_splits)
  have c2: "ds \<noteq> []"
    using assms c1 unfolding u by (simp split: if_splits)
  have "(w, g) = (''$'' @ sp @ ds @ th @ ce, ds @ th @ ce)"
    using assms c1 c2 unfolding u by auto
  then have w: "w = ''$'' @ sp @ ds @ th @ ce" and g: "g = ds @ th @ ce"
    by blast+
  obtain s' where s': "s = CHR ''$'' # s'"
    using c1 by (cases s) auto
  have "s' = sp @ r1"
    using opt_space_split [of s'] by (simp add: sp_def r1_def s')
  moreover have "r1 = ds @ r2"
    using take_digits_split [of 3 r1] by (simp add: ds_def r2_def)
  moreover have "r2 = th @ r3"
    using thousands_split [of r2] by (simp add: th_def r3_def)
  moreover have "r3 = ce @ drop (length ce) r3"
    using cents_split [of r3] by (simp add: ce_def)
  ultimately have "s = w @ drop (length ce) r3"
    by (simp add: s' w)
  then have p: "prefix w s" by (metis prefixI)
  have "space_opt sp" unfolding sp_def by (rule opt_space_ok)
  moreover have "digits ds" unfolding ds_def using c2 [unfolded ds_def] by (rule take_digits_digits)
  moreover have "length ds \<le> 3" unfolding ds_def by (rule take_digits_length)
  moreover have "th = [] \<or> (\<exists>t. th = CHR '','' # t \<and> digits t \<and> length t = 3)"
    unfolding th_def by (rule thousands_ok)
  moreover have "ce = [] \<or> (\<exists>t. ce = CHR ''.'' # t \<and> digits t \<and> length t \<le> 2)"
    unfolding ce_def by (rule cents_ok)
  moreover have "w = ''$'' @ sp @ g" using w g by simp
  ultimately have "dollar_amount w g"
    unfolding dollar_amount_def using g by blast
  with p show ?thesis by simp
qed

lemma price_re_eval:
  assumes "space_opt sp" and "digits ds" and "length ds \<le> 3"
  shows "price_re (CHR ''$'' # sp @ ds @ t) =
           (let e = take_digits (3 - length ds) t;
                r2 = drop (length e) t;
                th = thousands r2;
                ce = cents (drop (length th) r2)
            in Some (''$'' @ sp @ (ds @ e) @ th @ ce, (ds @ e) @ th @ ce))"
proof -
  obtain d ds' where d: "ds = d # ds'" "isDigit d"
    using assms(2) by (cases ds) (simp_all add: digits_def)
  have os: "opt_space (sp @ ds @ t) = sp"
    using assms(1) by (rule opt_space_eq) (simp add: d digit_not_space)
  have td: "take_digits 3 (ds @ t) = ds @ take_digits (3 - length ds) t"
    using assms(2,3) by (intro take_digits_append) (simp_all add: digits_def)
  have ne: "ds @ take_digits (3 - length ds) t \<noteq> []"
    by (simp add: d)
  have dr: "drop (length ds + length (take_digits (3 - length ds) t)) (ds @ t)
              = drop (length (take_digits (3 - length ds) t)) t"
    by simp
  show ?thesis
    unfolding price_re_def Let_def
    using ne by (simp add: os td dr)
qed

lemma dollar_amount_cases:
  assumes "dollar_amount w g"
  obtains sp ds th ce where "w = CHR ''$'' # sp @ ds @ th @ ce" "g = ds @ th @ ce"
    "space_opt sp" "digits ds" "length ds \<le> 3"
    "th = [] \<or> (\<exists>t. th = CHR '','' # t \<and> digits t \<and> length t = 3)"
    "ce = [] \<or> (\<exists>t. ce = CHR ''.'' # t \<and> digits t \<and> length t \<le> 2)"
proof -
  from assms obtain sp ds th ce where
    h: "w = ''$'' @ sp @ g" "g = ds @ th @ ce" "space_opt sp" "digits ds" "length ds \<le> 3"
    "th = [] \<or> (\<exists>t. th = CHR '','' # t \<and> digits t \<and> length t = 3)"
    "ce = [] \<or> (\<exists>t. ce = CHR ''.'' # t \<and> digits t \<and> length t \<le> 2)"
    unfolding dollar_amount_def by blast
  from h(1,2) have "w = CHR ''$'' # sp @ ds @ th @ ce" by simp
  then show thesis using h(2-7) by (rule that)
qed

lemma price_re_complete:
  assumes "dollar_amount w' g'" and "prefix w' s"
  shows "\<exists>w g. price_re s = Some (w, g) \<and> prefix w' w"
proof -
  obtain sp ds th ce where
    w': "w' = CHR ''$'' # sp @ ds @ th @ ce" and sp: "space_opt sp" and ds: "digits ds"
    and l: "length ds \<le> 3"
    and th: "th = [] \<or> (\<exists>t. th = CHR '','' # t \<and> digits t \<and> length t = 3)"
    and ce: "ce = [] \<or> (\<exists>t. ce = CHR ''.'' # t \<and> digits t \<and> length t \<le> 2)"
    by (rule dollar_amount_cases [OF assms(1)])
  from assms(2) obtain rest where s: "s = w' @ rest" by (auto simp: prefix_def)
  then have s2: "s = CHR ''$'' # sp @ ds @ (th @ ce @ rest)" by (simp add: w')
  note ev = price_re_eval [OF sp ds l, of "th @ ce @ rest", folded s2]
  consider (a) "th = []" "ce = []"
    | (b) t where "th = []" "ce = CHR ''.'' # t" "digits t" "length t \<le> 2"
    | (c) t where "th = CHR '','' # t" "digits t" "length t = 3"
    using th ce by blast
  then show ?thesis
  proof cases
    case a
    then show ?thesis
      using ev by (simp add: Let_def w')
  next
    case b
    have "take_digits (3 - length ds) (th @ ce @ rest) = []"
      using b by (simp add: take_digits_nondigit)
    moreover have "thousands (ce @ rest) = []"
      using b by (simp add: thousands_def)
    moreover have "cents (ce @ rest) = CHR ''.'' # t @ take_digits (2 - length t) rest"
      using cents_ext [OF b(3,4), of rest] b(2) by simp
    ultimately show ?thesis
      using ev b by (simp add: Let_def w')
  next
    case c
    have "take_digits (3 - length ds) (th @ ce @ rest) = []"
      using c by (simp add: take_digits_nondigit)
    moreover have "thousands (th @ ce @ rest) = th"
      using thousands_eq [OF c(2,3), of "ce @ rest"] c(1) by simp
    moreover have "prefix ce (cents (ce @ rest))"
    proof -
      from ce show ?thesis
      proof
        assume "ce = []" then show ?thesis by simp
      next
        assume "\<exists>t. ce = CHR ''.'' # t \<and> digits t \<and> length t \<le> 2"
        then obtain u where u: "ce = CHR ''.'' # u" "digits u" "length u \<le> 2" by blast
        show ?thesis using cents_ext [OF u(2,3), of rest] u(1) by simp
      qed
    qed
    ultimately show ?thesis
      using ev by (simp add: Let_def w')
  qed
qed


lemma space_not_digit: "isSpace c \<Longrightarrow> \<not> isDigit c"
  using digit_not_space by blast

lemma take_digits_stop: "t = [] \<or> \<not> isDigit (hd t) \<Longrightarrow> take_digits n t = []"
  by (cases t) (auto simp: take_digits_nondigit)

lemma space_opt_hd: "space_opt sp \<Longrightarrow> \<not> isDigit c \<Longrightarrow> \<not> isDigit (hd (sp @ c # t))"
  unfolding space_opt_def by (auto dest: space_not_digit)

lemma unit_re_eval:
  assumes "digits d1" and "length d1 \<le> 2" and "space_opt s1" and "x = CHR ''x'' \<or> x = CHR ''X''"
    and "space_opt s2" and "digits d2" and "length d2 \<le> 2"
  shows "unit_re (d1 @ s1 @ x # s2 @ d2 @ rest) =
           Some (d1 @ s1 @ x # s2 @ d2 @ take_digits (2 - length d2) rest,
                 d1 @ s1 @ x # s2 @ d2 @ take_digits (2 - length d2) rest)"
proof -
  have xd: "\<not> isDigit x" "\<not> isSpace x"
    using assms(4) by (auto simp: isDigit_def isSpace_def)
  obtain e d2' where d2: "d2 = e # d2'" "isDigit e"
    using assms(6) by (cases d2) (simp_all add: digits_def)
  have n1: "d1 \<noteq> []" using assms(1) by (simp add: digits_def)
  have "take_digits (2 - length d1) (s1 @ x # s2 @ d2 @ rest) = []"
    by (rule take_digits_stop) (simp add: space_opt_hd [OF assms(3) xd(1)])
  then have t1: "take_digits 2 (d1 @ s1 @ x # s2 @ d2 @ rest) = d1"
    using take_digits_append [of d1 2 "s1 @ x # s2 @ d2 @ rest"] assms(1,2)
    by (simp add: digits_def)
  have o1: "opt_space (s1 @ x # s2 @ d2 @ rest) = s1"
    using assms(3) by (rule opt_space_eq) (simp add: xd)
  have o2: "opt_space (s2 @ d2 @ rest) = s2"
    using assms(5) by (rule opt_space_eq) (simp add: d2 digit_not_space)
  have t2: "take_digits 2 (d2 @ rest) = d2 @ take_digits (2 - length d2) rest"
    using take_digits_append [of d2 2 rest] assms(6,7) by (simp add: digits_def)
  have ne: "d2 @ take_digits (2 - length d2) rest \<noteq> []" by (simp add: d2)
  show ?thesis
    unfolding unit_re_def Let_def using n1 ne assms(4)
    by (simp add: t1 o1 o2 t2)
qed

lemma unit_re_complete:
  assumes "unit_size w'" and "prefix w' s"
  shows "\<exists>w. unit_re s = Some (w, w) \<and> prefix w' w"
proof -
  from assms(1) obtain d1 s1 x s2 d2 where
    w': "w' = d1 @ s1 @ [x] @ s2 @ d2" and h: "digits d1" "length d1 \<le> 2" "space_opt s1"
      "x = CHR ''x'' \<or> x = CHR ''X''" "space_opt s2" "digits d2" "length d2 \<le> 2"
    unfolding unit_size_def by blast
  from assms(2) obtain rest where "s = w' @ rest" by (auto simp: prefix_def)
  then have s: "s = d1 @ s1 @ x # s2 @ d2 @ rest" by (simp add: w')
  show ?thesis
    unfolding s using unit_re_eval [OF h, of rest] by (simp add: w')
qed

lemma unit_re_sound:
  assumes "unit_re s = Some (w, g)"
  shows "unit_size w \<and> prefix w s \<and> g = w"
proof -
  define d1 where "d1 = take_digits 2 s"
  define r1 where "r1 = drop (length d1) s"
  define s1 where "s1 = opt_space r1"
  define r2 where "r2 = drop (length s1) r1"
  define r3 where "r3 = drop 1 r2"
  define s2 where "s2 = opt_space r3"
  define r4 where "r4 = drop (length s2) r3"
  define d2 where "d2 = take_digits 2 r4"
  have u: "unit_re s =
      (if d1 = [] then None
       else if take 1 r2 \<noteq> ''x'' \<and> take 1 r2 \<noteq> ''X'' then None
       else if d2 = [] then None
       else Some (d1 @ s1 @ take 1 r2 @ s2 @ d2, d1 @ s1 @ take 1 r2 @ s2 @ d2))"
    unfolding unit_re_def Let_def d1_def r1_def s1_def r2_def r3_def s2_def r4_def d2_def
    by (rule refl)
  have c1: "d1 \<noteq> []"
    using assms unfolding u by (simp split: if_splits)
  have c2: "take 1 r2 = ''x'' \<or> take 1 r2 = ''X''"
    using assms c1 unfolding u by (simp split: if_splits)
  have c3: "d2 \<noteq> []"
    using assms c1 c2 unfolding u by (auto split: if_splits)
  have "(w, g) = (d1 @ s1 @ take 1 r2 @ s2 @ d2, d1 @ s1 @ take 1 r2 @ s2 @ d2)"
    using assms c1 c2 c3 unfolding u by auto
  then have w: "w = d1 @ s1 @ take 1 r2 @ s2 @ d2" and g: "g = w" by blast+
  obtain x where x: "take 1 r2 = [x]" "x = CHR ''x'' \<or> x = CHR ''X''"
    using c2 by blast
  have "s = d1 @ r1"
    using take_digits_split [of 2 s] by (simp add: d1_def r1_def)
  moreover have "r1 = s1 @ r2"
    using opt_space_split [of r1] by (simp add: s1_def r2_def)
  moreover have "r2 = x # r3"
    unfolding r3_def using x(1) by (rule take1_split)
  moreover have "r3 = s2 @ r4"
    using opt_space_split [of r3] by (simp add: s2_def r4_def)
  moreover have "r4 = d2 @ drop (length d2) r4"
    using take_digits_split [of 2 r4] by (simp add: d2_def)
  ultimately have "s = w @ drop (length d2) r4"
    by (simp add: w x(1))
  then have p: "prefix w s" by (metis prefixI)
  have "digits d1" unfolding d1_def using c1 [unfolded d1_def] by (rule take_digits_digits)
  moreover have "length d1 \<le> 2" unfolding d1_def by (rule take_digits_length)
  moreover have "space_opt s1" unfolding s1_def by (rule opt_space_ok)
  moreover have "space_opt s2" unfolding s2_def by (rule opt_space_ok)
  moreover have "digits d2" unfolding d2_def using c3 [unfolded d2_def] by (rule take_digits_digits)
  moreover have "length d2 \<le> 2" unfolding d2_def by (rule take_digits_length)
  moreover have "w = d1 @ s1 @ [x] @ s2 @ d2" using w x(1) by simp
  ultimately have "unit_size w"
    unfolding unit_size_def using x(2) by blast
  with p g show ?thesis by simp
qed


lemma occurs_at_Suc: "occurs_at pat (c # cs) (Suc j) = occurs_at pat cs j"
  by (simp add: occurs_at_def)

lemma occurs_at_0: "occurs_at pat content 0 \<longleftrightarrow> (\<exists>w. pat w \<and> prefix w content)"
  by (simp add: occurs_at_def)

lemma match_re_None:
  assumes complete: "\<And>s w'. pat w' \<Longrightarrow> prefix w' s \<Longrightarrow> \<exists>w g. re s = Some (w, g)"
    and nonempty: "\<not> pat []"
    and none: "match_re re content = None"
  shows "\<not> occurs_at pat content i"
  using none
proof (induction content arbitrary: i)
  case Nil
  show ?case using nonempty by (auto simp: occurs_at_def)
next
  case (Cons c cs)
  from Cons.prems have r: "re (c # cs) = None" and m: "match_re re cs = None"
    by (simp_all split: option.splits)
  show ?case
  proof (cases i)
    case 0
    show ?thesis
    proof
      assume "occurs_at pat (c # cs) i"
      then obtain w' where "pat w'" "prefix w' (c # cs)"
        using 0 by (auto simp: occurs_at_0)
      from complete [OF this] r show False by simp
    qed
  next
    case (Suc j)
    then show ?thesis using Cons.IH [OF m, of j] by (simp add: occurs_at_Suc)
  qed
qed

lemma match_re_Some:
  assumes sound: "\<And>s w g. re s = Some (w, g) \<Longrightarrow> pat w \<and> prefix w s"
    and complete: "\<And>s w'. pat w' \<Longrightarrow> prefix w' s \<Longrightarrow> \<exists>w g. re s = Some (w, g) \<and> prefix w' w"
    and some: "match_re re content = Some (w, g)"
  shows "\<exists>pre post. content = pre @ w @ post \<and> re (w @ post) = Some (w, g) \<and> pat w
           \<and> (\<forall>j < length pre. \<not> occurs_at pat content j)
           \<and> (\<forall>w'. pat w' \<and> prefix w' (w @ post) \<longrightarrow> prefix w' w)"
  using some
proof (induction content)
  case Nil
  then show ?case by simp
next
  case (Cons c cs)
  show ?case
  proof (cases "re (c # cs)")
    case None
    with Cons.prems have "match_re re cs = Some (w, g)" by simp
    from Cons.IH [OF this] obtain pre post where
      h: "cs = pre @ w @ post" "re (w @ post) = Some (w, g)" "pat w"
        "\<forall>j < length pre. \<not> occurs_at pat cs j"
        "\<forall>w'. pat w' \<and> prefix w' (w @ post) \<longrightarrow> prefix w' w"
      by blast
    have n0: "\<not> occurs_at pat (c # cs) 0"
    proof
      assume "occurs_at pat (c # cs) 0"
      then obtain w' where "pat w'" "prefix w' (c # cs)" by (auto simp: occurs_at_0)
      from complete [OF this] None show False by simp
    qed
    have "\<forall>j < length (c # pre). \<not> occurs_at pat (c # cs) j"
    proof (intro allI impI)
      fix j assume j: "j < length (c # pre)"
      show "\<not> occurs_at pat (c # cs) j"
      proof (cases j)
        case 0
        then show ?thesis using n0 by simp
      next
        case (Suc k)
        then show ?thesis using h(4) j by (simp add: occurs_at_Suc)
      qed
    qed
    moreover have "c # cs = (c # pre) @ w @ post" using h(1) by simp
    ultimately show ?thesis using h(2,3,5) by blast
  next
    case (Some r)
    with Cons.prems have r: "re (c # cs) = Some (w, g)" by simp
    from sound [OF r] have pw: "pat w" and "prefix w (c # cs)" by simp_all
    then obtain post where post: "c # cs = w @ post" by (auto simp: prefix_def)
    have "\<forall>w'. pat w' \<and> prefix w' (w @ post) \<longrightarrow> prefix w' w"
    proof (intro allI impI)
      fix w' assume "pat w' \<and> prefix w' (w @ post)"
      then have "pat w'" "prefix w' (c # cs)" by (simp_all add: post)
      from complete [OF this] r show "prefix w' w" by simp
    qed
    moreover have "c # cs = [] @ w @ post" using post by simp
    moreover have "re (w @ post) = Some (w, g)" using r post by simp
    ultimately show ?thesis using pw
      by (metis length_0_conv not_less_zero list.size(3))
  qed
qed

lemma matchAll_head:
  "(case matchAll re 0 s of [] \<Rightarrow> None | x # _ \<Rightarrow> Some x) = match_re re s"
  by (induction s) (simp_all split: option.splits prod.splits)

lemma s_price_extractResult:
  "s_price (extractResult content url) =
     (case match_re price_re content of
        None \<Rightarrow> JNull
      | Some (w, g) \<Rightarrow> JNumber (StringToNumber (filter (\<lambda>c. c \<noteq> CHR '','') g)))"
proof -
  have "s_price (extractResult content url) =
      (case matchAll price_re 0 content of [] \<Rightarrow> JNull
       | (w, g) # _ \<Rightarrow> JNumber (StringToNumber (filter (\<lambda>c. c \<noteq> CHR '','') g)))"
    by (simp add: extractResult_def Let_def split: list.splits)
  then show ?thesis
    unfolding matchAll_head [of price_re content, symmetric]
    by (simp split: list.splits)
qed

lemma s_unit_extractResult:
  "s_unit (extractResult content url) =
     (case match_re unit_re content of
        None \<Rightarrow> JNull
      | Some (w, g) \<Rightarrow> JStr (filter (\<lambda>c. \<not> isSpace c) g))"
  by (simp add: extractResult_def Let_def)


lemma extractResult_match:
  "extractResult content url =
     \<lparr> s_price = (case match_re price_re content of
                     None \<Rightarrow> JNull
                   | Some (w, g) \<Rightarrow> JNumber (StringToNumber (filter (\<lambda>c. c \<noteq> CHR '','') g))),
       s_unit = (case match_re unit_re content of
                    None \<Rightarrow> JNull
                  | Some (w, g) \<Rightarrow> JStr (filter (\<lambda>c. \<not> isSpace c) g)),
       s_source = url \<rparr>"
  using s_price_extractResult [of content url] s_unit_extractResult [of content url]
  by (simp add: extractResult_def Let_def)

lemma dollar_text_not_Nil: "\<not> dollar_text []"
  by (simp add: dollar_text_def dollar_amount_def)

lemma unit_size_not_Nil: "\<not> unit_size []"
  by (simp add: unit_size_def digits_def)

lemma price_re_dollar_text:
  "price_re s = Some (w, g) \<Longrightarrow> dollar_text w \<and> prefix w s"
  using price_re_sound [of s w g] by (auto simp: dollar_text_def)

lemma dollar_text_price_re:
  "dollar_text w' \<Longrightarrow> prefix w' s \<Longrightarrow> \<exists>w g. price_re s = Some (w, g) \<and> prefix w' w"
  using price_re_complete [of w' _ s] by (auto simp: dollar_text_def)

lemma unit_size_unit_re:
  "unit_size w' \<Longrightarrow> prefix w' s \<Longrightarrow> \<exists>w g. unit_re s = Some (w, g) \<and> prefix w' w"
  using unit_re_complete [of w' s] by blast

lemma price_first_match:
  assumes "match_re price_re content = Some (w, g)"
  shows "first_match dollar_text content w \<and> dollar_amount w g"
proof -
  have "\<exists>pre post. content = pre @ w @ post \<and> price_re (w @ post) = Some (w, g)
           \<and> dollar_text w
           \<and> (\<forall>j < length pre. \<not> occurs_at dollar_text content j)
           \<and> (\<forall>w'. dollar_text w' \<and> prefix w' (w @ post) \<longrightarrow> prefix w' w)"
  proof (rule match_re_Some [where re = price_re and pat = dollar_text])
    fix s w g assume "price_re s = Some (w, g)"
    then show "dollar_text w \<and> prefix w s" by (rule price_re_dollar_text)
  next
    fix s w' assume "dollar_text w'" "prefix w' s"
    then show "\<exists>w g. price_re s = Some (w, g) \<and> prefix w' w" by (rule dollar_text_price_re)
  next
    show "match_re price_re content = Some (w, g)" by (rule assms)
  qed
  then obtain pre post where
    h: "content = pre @ w @ post" "price_re (w @ post) = Some (w, g)" "dollar_text w"
      "\<forall>j < length pre. \<not> occurs_at dollar_text content j"
      "\<forall>w'. dollar_text w' \<and> prefix w' (w @ post) \<longrightarrow> prefix w' w"
    by blast
  have "first_match dollar_text content w"
    unfolding first_match_def using h(1,3,4,5) by blast
  moreover have "dollar_amount w g"
    using price_re_sound [OF h(2)] by simp
  ultimately show ?thesis ..
qed

lemma price_no_match:
  assumes "match_re price_re content = None"
  shows "\<not> occurs_at dollar_text content i"
proof (rule match_re_None [of dollar_text price_re content, OF _ dollar_text_not_Nil assms])
  fix s w' assume "dollar_text w'" "prefix w' s"
  from dollar_text_price_re [OF this] show "\<exists>w g. price_re s = Some (w, g)" by blast
qed

lemma unit_first_match:
  assumes "match_re unit_re content = Some (w, g)"
  shows "first_match unit_size content w \<and> g = w"
proof -
  have "\<exists>pre post. content = pre @ w @ post \<and> unit_re (w @ post) = Some (w, g)
           \<and> unit_size w
           \<and> (\<forall>j < length pre. \<not> occurs_at unit_size content j)
           \<and> (\<forall>w'. unit_size w' \<and> prefix w' (w @ post) \<longrightarrow> prefix w' w)"
  proof (rule match_re_Some [where re = unit_re and pat = unit_size])
    fix s w g assume "unit_re s = Some (w, g)"
    then show "unit_size w \<and> prefix w s" using unit_re_sound by blast
  next
    fix s w' assume "unit_size w'" "prefix w' s"
    then show "\<exists>w g. unit_re s = Some (w, g) \<and> prefix w' w" by (rule unit_size_unit_re)
  next
    show "match_re unit_re content = Some (w, g)" by (rule assms)
  qed
  then obtain pre post where
    h: "content = pre @ w @ post" "unit_re (w @ post) = Some (w, g)" "unit_size w"
      "\<forall>j < length pre. \<not> occurs_at unit_size content j"
      "\<forall>w'. unit_size w' \<and> prefix w' (w @ post) \<longrightarrow> prefix w' w"
    by blast
  have "first_match unit_size content w"
    unfolding first_match_def using h(1,3,4,5) by blast
  moreover have "g = w"
    using unit_re_sound [OF h(2)] by simp
  ultimately show ?thesis ..
qed

lemma unit_no_match:
  assumes "match_re unit_re content = None"
  shows "\<not> occurs_at unit_size content i"
proof (rule match_re_None [of unit_size unit_re content, OF _ unit_size_not_Nil assms])
  fix s w' assume "unit_size w'" "prefix w' s"
  from unit_size_unit_re [OF this] show "\<exists>w g. unit_re s = Some (w, g)" by blast
qed

text \<open>There is at most one first match.\<close>

lemma first_match_unique:
  assumes "first_match pat content w" and "first_match pat content v"
  shows "w = v"
proof -
  from assms(1) obtain pre post where
    a: "content = pre @ w @ post" "pat w" "\<forall>j < length pre. \<not> occurs_at pat content j"
      "\<forall>w'. pat w' \<and> prefix w' (w @ post) \<longrightarrow> prefix w' w"
    unfolding first_match_def by blast
  from assms(2) obtain pre' post' where
    b: "content = pre' @ v @ post'" "pat v" "\<forall>j < length pre'. \<not> occurs_at pat content j"
      "\<forall>w'. pat w' \<and> prefix w' (v @ post') \<longrightarrow> prefix w' v"
    unfolding first_match_def by blast
  have ow: "occurs_at pat content (length pre)"
    unfolding occurs_at_def using a(1,2) by auto
  have ov: "occurs_at pat content (length pre')"
    unfolding occurs_at_def using b(1,2) by auto
  have "length pre = length pre'"
    using a(3) b(3) ow ov by (metis linorder_neqE_nat)
  with a(1) b(1) have e: "w @ post = v @ post'" by (metis append_eq_append_conv)
  have "prefix v w" using a(4) b(2) e by (metis prefixI)
  moreover have "prefix w v" using b(4) a(2) e by (metis prefixI)
  ultimately show ?thesis by (rule prefix_order.antisym [rotated])
qed

lemma price_re_not_dollar: "c \<noteq> CHR ''$'' \<Longrightarrow> price_re (c # t) = None"
  by (simp add: price_re_def)

lemma unit_re_not_digit: "\<not> isDigit c \<Longrightarrow> unit_re (c # t) = None"
  by (simp add: unit_re_def take_digits_nondigit)

lemma match_re_price_skip:
  "\<forall>c \<in> set pre. c \<noteq> CHR ''$'' \<Longrightarrow> match_re price_re (pre @ s) = match_re price_re s"
  by (induction pre) (simp_all add: price_re_not_dollar)

lemma match_re_unit_skip:
  "\<forall>c \<in> set pre. \<not> isDigit c \<Longrightarrow> match_re unit_re (pre @ s) = match_re unit_re s"
  by (induction pre) (simp_all add: unit_re_not_digit)

lemmas re_eval =
  price_re_def unit_re_def take_digits_def opt_space_def thousands_def cents_def
  isDigit_def isSpace_def Let_def

lemma example_price_match:
  "match_re price_re (''Starting at $89.99 for a 10x10 unit'' @ post) = Some (''$89.99'', ''89.99'')"
  by (simp add: re_eval)

lemma example_unit_match:
  "match_re unit_re (''Starting at $89.99 for a 10x10 unit'' @ post) = Some (''10x10'', ''10x10'')"
  by (simp add: re_eval)

lemma example_number: "StringToNumber ''89.99'' = Some (8999 / 100)"
  by (simp add: StringToNumber_def trim_def isSpace_def unsigned_decimal_def isDigit_def
      exponent_part_def digits_val_def digit_val_def)

lemma example_extract:
  assumes "\<forall>c \<in> set pre. c \<noteq> CHR ''$'' \<and> \<not> isDigit c"
  shows "extractResult (pre @ ''Starting at $89.99 for a 10x10 unit'' @ post) url
           = \<lparr> s_price = JNumber (Some (8999 / 100)), s_unit = JStr ''10x10'', s_source = url \<rparr>"
proof -
  have "match_re price_re (pre @ ''Starting at $89.99 for a 10x10 unit'' @ post)
          = Some (''$89.99'', ''89.99'')"
    using assms match_re_price_skip [of pre] example_price_match by simp
  moreover have "match_re unit_re (pre @ ''Starting at $89.99 for a 10x10 unit'' @ post)
          = Some (''10x10'', ''10x10'')"
    using assms match_re_unit_skip [of pre] example_unit_match by simp
  ultimately show ?thesis
    unfolding extractResult_match using example_number by (simp add: isSpace_def)
qed


lemma StringToNumber_unsigned:
  assumes "s \<noteq> []" and "isDigit (hd s)" and "isDigit (last s)"
    and "unsigned_decimal s = Some v"
  shows "StringToNumber s = Some v"
proof -
  obtain d t where s: "s = d # t" using assms(1) by (cases s) auto
  have d: "d \<noteq> CHR ''-''" "d \<noteq> CHR ''+''" using assms(2) by (auto simp: s)
  have "trim s = s"
    using assms(1-3) by (intro trim_id) (simp_all add: digit_not_space)
  then show ?thesis
    unfolding StringToNumber_def using d assms(4) by (simp add: s)
qed

lemma unsigned_decimal_digits:
  assumes "digits a"
  shows "unsigned_decimal a = Some (of_nat (digits_val a))"
proof -
  have t: "takeWhile isDigit a = a"
    using takeWhile_digits_stop [OF assms, of "[]"] by simp
  have d: "dropWhile isDigit a = []"
    using dropWhile_digits_stop [OF assms, of "[]"] by simp
  have "a \<noteq> []" using assms by (simp add: digits_def)
  then show ?thesis
    unfolding unsigned_decimal_def Let_def t d by (simp add: exponent_part_def digits_val_def)
qed

lemma digits_append: "digits a \<Longrightarrow> digits b \<Longrightarrow> digits (a @ b)"
  by (simp add: digits_def)

lemma digits_hd_last: "digits a \<Longrightarrow> isDigit (hd a) \<and> isDigit (last a)"
  by (auto simp: digits_def list_all_iff)

lemma digits_filter: "digits a \<Longrightarrow> filter (\<lambda>c. c \<noteq> CHR '','') a = a"
  using digits_no_comma [of a] by (auto simp: filter_id_conv)

lemma amount_is_number:
  assumes "dollar_amount w g"
  shows "\<exists>q. StringToNumber (filter (\<lambda>c. c \<noteq> CHR '','') g) = Some q"
proof -
  obtain sp ds th ce where
    "w = CHR ''$'' # sp @ ds @ th @ ce" and g: "g = ds @ th @ ce" and ds: "digits ds"
    and th: "th = [] \<or> (\<exists>t. th = CHR '','' # t \<and> digits t \<and> length t = 3)"
    and ce: "ce = [] \<or> (\<exists>t. ce = CHR ''.'' # t \<and> digits t \<and> length t \<le> 2)"
    by (rule dollar_amount_cases [OF assms])
  obtain ip where ip: "digits ip" "filter (\<lambda>c. c \<noteq> CHR '','') (ds @ th) = ip"
  proof -
    from th show thesis
    proof
      assume "th = []"
      then show thesis using that [of ds] ds by (simp add: digits_filter)
    next
      assume "\<exists>t. th = CHR '','' # t \<and> digits t \<and> length t = 3"
      then obtain t where t: "th = CHR '','' # t" "digits t" by blast
      show thesis
        using that [of "ds @ t"] ds t by (simp add: digits_filter digits_append)
    qed
  qed
  from ce show ?thesis
  proof
    assume "ce = []"
    then have f: "filter (\<lambda>c. c \<noteq> CHR '','') g = ip" using ip(2) by (simp add: g)
    have "ip \<noteq> []" using ip(1) by (simp add: digits_def)
    then have "StringToNumber ip = Some (of_nat (digits_val ip))"
      using digits_hd_last [OF ip(1)] unsigned_decimal_digits [OF ip(1)]
      by (intro StringToNumber_unsigned) simp_all
    then show ?thesis by (simp add: f)
  next
    assume "\<exists>t. ce = CHR ''.'' # t \<and> digits t \<and> length t \<le> 2"
    then obtain u where u: "ce = CHR ''.'' # u" "digits u" by blast
    have "filter (\<lambda>c. c \<noteq> CHR '','') g = filter (\<lambda>c. c \<noteq> CHR '','') (ds @ th) @ CHR ''.'' # u"
      using digits_filter [OF u(2)] by (simp add: g u(1))
    then have f: "filter (\<lambda>c. c \<noteq> CHR '','') g = ip @ CHR ''.'' # u"
      using ip(2) by simp
    have un: "u \<noteq> []" using u(2) by (simp add: digits_def)
    have ipn: "ip \<noteq> []" using ip(1) by (simp add: digits_def)
    have "StringToNumber (ip @ CHR ''.'' # u)
            = Some (of_nat (digits_val ip) + of_nat (digits_val u) / 10 ^ length u)"
      using digits_hd_last [OF ip(1)] digits_hd_last [OF u(2)] un ipn
        unsigned_decimal_point [OF ip(1) u(2)]
      by (intro StringToNumber_unsigned) simp_all
    then show ?thesis by (simp add: f)
  qed
qed

text \<open>
  C6. For any page text, the price of the extraction is \<open>null\<close> when no dollar amount
  occurs in the text, and otherwise the number read from the amount of the first dollar
  amount in document order (the longest one that starts at the first position where one
  starts), commas removed; the unit is \<open>null\<close> when no unit size occurs, and otherwise the
  first unit size in document order with its white space removed. On the text
  \<open>Starting at $89.99 for a 10x10 unit\<close>, also with any text after it and any text
  before it that has no \<open>$\<close> and no digit, the price is 89.99 and the unit is \<open>10x10\<close>.
\<close>

theorem first_price_and_unit:
  "(case s_price (extractResult content url) of
      JNull \<Rightarrow> \<forall>i. \<not> occurs_at dollar_text content i
    | JNumber p \<Rightarrow>
        \<exists>w g q. first_match dollar_text content w \<and> dollar_amount w g
          \<and> StringToNumber (filter (\<lambda>c. c \<noteq> CHR '','') g) = Some q \<and> p = Some q
    | _ \<Rightarrow> False)
   \<and> (case s_unit (extractResult content url) of
        JNull \<Rightarrow> \<forall>i. \<not> occurs_at unit_size content i
      | JStr u \<Rightarrow> \<exists>w. first_match unit_size content w \<and> u = filter (\<lambda>c. \<not> isSpace c) w
      | _ \<Rightarrow> False)
   \<and> s_source (extractResult content url) = url
   \<and> (\<forall>pre post. (\<forall>c \<in> set pre. c \<noteq> CHR ''$'' \<and> \<not> isDigit c) \<longrightarrow>
         extractResult (pre @ ''Starting at $89.99 for a 10x10 unit'' @ post) url
           = \<lparr> s_price = JNumber (Some (8999 / 100)), s_unit = JStr ''10x10'',
               s_source = url \<rparr>)
   \<and> extractResult ''Starting at $89.99 for a 10x10 unit'' url
       = \<lparr> s_price = JNumber (Some (8999 / 100)), s_unit = JStr ''10x10'', s_source = url \<rparr>"
proof (intro conjI allI impI)
  show "case s_price (extractResult content url) of
      JNull \<Rightarrow> \<forall>i. \<not> occurs_at dollar_text content i
    | JNumber p \<Rightarrow>
        \<exists>w g q. first_match dollar_text content w \<and> dollar_amount w g
          \<and> StringToNumber (filter (\<lambda>c. c \<noteq> CHR '','') g) = Some q \<and> p = Some q
    | _ \<Rightarrow> False"
  proof (cases "match_re price_re content")
    case None
    then show ?thesis
      using price_no_match [OF None] by (simp add: s_price_extractResult)
  next
    case (Some r)
    obtain w g where r: "r = (w, g)" by (cases r)
    from Some r have m: "match_re price_re content = Some (w, g)" by simp
    from price_first_match [OF m] have f: "first_match dollar_text content w" "dollar_amount w g"
      by simp_all
    from amount_is_number [OF f(2)] obtain q where
      "StringToNumber (filter (\<lambda>c. c \<noteq> CHR '','') g) = Some q" ..
    with f show ?thesis
      by (auto simp: s_price_extractResult m)
  qed
next
  show "case s_unit (extractResult content url) of
        JNull \<Rightarrow> \<forall>i. \<not> occurs_at unit_size content i
      | JStr u \<Rightarrow> \<exists>w. first_match unit_size content w \<and> u = filter (\<lambda>c. \<not> isSpace c) w
      | _ \<Rightarrow> False"
  proof (cases "match_re unit_re content")
    case None
    then show ?thesis
      using unit_no_match [OF None] by (simp add: s_unit_extractResult)
  next
    case (Some r)
    obtain w g where r: "r = (w, g)" by (cases r)
    from Some r have m: "match_re unit_re content = Some (w, g)" by simp
    from unit_first_match [OF m] show ?thesis
      by (auto simp: s_unit_extractResult m)
  qed
next
  show "s_source (extractResult content url) = url"
    by (simp add: extractResult_def Let_def)
next
  fix pre post
  assume "\<forall>c \<in> set pre. c \<noteq> CHR ''$'' \<and> \<not> isDigit c"
  then show "extractResult (pre @ ''Starting at $89.99 for a 10x10 unit'' @ post) url
           = \<lparr> s_price = JNumber (Some (8999 / 100)), s_unit = JStr ''10x10'',
               s_source = url \<rparr>"
    by (rule example_extract)
next
  show "extractResult ''Starting at $89.99 for a 10x10 unit'' url
       = \<lparr> s_price = JNumber (Some (8999 / 100)), s_unit = JStr ''10x10'', s_source = url \<rparr>"
    using example_extract [of "[]" "[]" url] by simp
qed

theorem first_price_and_unit_witness:
  "(\<exists>w g. first_match dollar_text ''Save $5 on $1,200.50 for 5 X 10'' w \<and> dollar_amount w g
        \<and> StringToNumber (filter (\<lambda>c. c \<noteq> CHR '','') g) = Some 5)
   \<and> (\<exists>w. first_match unit_size ''Save $5 on $1,200.50 for 5 X 10'' w
          \<and> ''5X10'' = filter (\<lambda>c. \<not> isSpace c) w)
   \<and> (\<forall>i. \<not> occurs_at dollar_text ''Call us for prices'' i)
   \<and> list_all (\<lambda>c. c \<noteq> CHR ''$'' \<and> \<not> isDigit c) ''<p>''
   \<and> extractResult (''<p>'' @ ''Starting at $89.99 for a 10x10 unit'' @ ''</p>'') ''u''
       = \<lparr> s_price = JNumber (Some (8999 / 100)), s_unit = JStr ''10x10'', s_source = ''u'' \<rparr>"
proof -
  note t = first_price_and_unit [of "''Save $5 on $1,200.50 for 5 X 10''" "''u''"]
  note n = first_price_and_unit [of "''Call us for prices''" "''u''"]
  have p: "s_price (extractResult ''Save $5 on $1,200.50 for 5 X 10'' ''u'') = JNumber (Some 5)"
    by (simp add: extract_eval)
  have u: "s_unit (extractResult ''Save $5 on $1,200.50 for 5 X 10'' ''u'') = JStr ''5X10''"
    by (simp add: extract_eval)
  have z: "s_price (extractResult ''Call us for prices'' ''u'') = JNull"
    by (simp add: extract_eval)
  have h: "\<forall>c \<in> set ''<p>''. c \<noteq> CHR ''$'' \<and> \<not> isDigit c"
    by (simp add: isDigit_def)
  from t p have 1: "\<exists>w g. first_match dollar_text ''Save $5 on $1,200.50 for 5 X 10'' w
        \<and> dollar_amount w g \<and> StringToNumber (filter (\<lambda>c. c \<noteq> CHR '','') g) = Some 5"
    by auto
  from t u have 2: "\<exists>w. first_match unit_size ''Save $5 on $1,200.50 for 5 X 10'' w
          \<and> ''5X10'' = filter (\<lambda>c. \<not> isSpace c) w"
    by simp
  from n z have 3: "\<forall>i. \<not> occurs_at dollar_text ''Call us for prices'' i"
    by simp
  from t h have 4: "extractResult (''<p>'' @ ''Starting at $89.99 for a 10x10 unit'' @ ''</p>'') ''u''
       = \<lparr> s_price = JNumber (Some (8999 / 100)), s_unit = JStr ''10x10'', s_source = ''u'' \<rparr>"
    by blast
  have l: "list_all (\<lambda>c. c \<noteq> CHR ''$'' \<and> \<not> isDigit c) ''<p>''"
    by (simp add: isDigit_def)
  from 1 2 3 l 4 show ?thesis by blast
qed

end
